theory Spec2Isabelle
  imports Complex_Main "HOL-Library.AList" "HOL-Library.Multiset"
begin

section \<open>Data model (shared schema)\<close>

text \<open>
  The rows follow the select types of the schema. A JavaScript \<open>number\<close> that is an
  identifier is a \<open>nat\<close>; an amount is an exact rational (the rounding of IEEE doubles
  is not modelled); a \<open>Date\<close> is the integer its \<open>getTime()\<close> returns. A column that
  may be \<open>null\<close> is an \<open>option\<close>.
\<close>

record User =
  usr_id :: nat
  usr_username :: string
  usr_name :: string
  usr_email :: string
  usr_password :: string
  usr_createdAt :: int

record Notification =
  ntf_id :: nat
  ntf_userId :: nat
  ntf_message :: string
  ntf_read :: bool
  ntf_createdAt :: int

record Transaction =
  tx_id :: nat
  tx_userId :: nat
  tx_amount :: rat
  tx_category :: string
  tx_description :: string
  tx_date :: int
  tx_type :: string
  tx_recurring :: "bool option"
  tx_note :: "string option"

record Category =
  cat_id :: nat
  cat_userId :: nat
  cat_name :: string
  cat_type :: "string option"
  cat_createdAt :: int

record Income =
  inc_id :: nat
  inc_userId :: nat
  inc_source :: string
  inc_amount :: rat
  inc_date :: int
  inc_recurring :: "bool option"

record Budget =
  bud_id :: nat
  bud_userId :: nat
  bud_category :: string
  bud_amount :: rat
  bud_period :: string

record Goal =
  goal_id :: nat
  goal_userId :: nat
  goal_name :: string
  goal_targetAmount :: rat
  goal_currentAmount :: rat
  goal_deadline :: "int option"

text \<open>
  The objects handed to the create functions. Their static types are the insert types of
  the schema (no \<open>id\<close>, optional columns may be missing), but \<open>restoreBackup\<close> passes
  \<open>{...item, userId}\<close> built from an untyped item, which may carry an \<open>id\<close> (and, for a
  category, a \<open>createdAt\<close>) of its own. These extra properties are fields here, so that
  the model shows what becomes of them. \<open>None\<close> is a property that is missing, undefined
  or null.
\<close>

record InsertUser =
  iu_username :: string
  iu_name :: string
  iu_email :: string
  iu_password :: string

record InsertNotification =
  in_userId :: nat
  in_message :: string
  in_read :: "bool option"

record InsertTransaction =
  ti_id :: "nat option"
  ti_userId :: nat
  ti_amount :: rat
  ti_category :: string
  ti_description :: string
  ti_date :: "int option"
  ti_type :: string
  ti_recurring :: "bool option"
  ti_note :: "string option"

record InsertCategory =
  ci_id :: "nat option"
  ci_userId :: nat
  ci_name :: string
  ci_type :: "string option"
  ci_createdAt :: "int option"

record InsertIncome =
  ii_id :: "nat option"
  ii_userId :: nat
  ii_source :: string
  ii_amount :: rat
  ii_date :: "int option"
  ii_recurring :: "bool option"

record InsertBudget =
  ib_id :: "nat option"
  ib_userId :: nat
  ib_category :: string
  ib_amount :: rat
  ib_period :: string

record InsertGoal =
  ig_id :: "nat option"
  ig_userId :: nat
  ig_name :: string
  ig_targetAmount :: rat
  ig_currentAmount :: "rat option"
  ig_deadline :: "int option"

text \<open>
  \<open>Partial<Transaction>\<close> and its siblings: every property of the row may be present,
  \<open>id\<close> and \<open>userId\<close> included. \<open>None\<close> is an absent property; for a nullable column
  \<open>Some None\<close> is a property that is present and null.
\<close>

record PartialTransaction =
  pt_id :: "nat option"
  pt_userId :: "nat option"
  pt_amount :: "rat option"
  pt_category :: "string option"
  pt_description :: "string option"
  pt_date :: "int option"
  pt_type :: "string option"
  pt_recurring :: "bool option option"
  pt_note :: "string option option"

record PartialIncome =
  pi_id :: "nat option"
  pi_userId :: "nat option"
  pi_source :: "string option"
  pi_amount :: "rat option"
  pi_date :: "int option"
  pi_recurring :: "bool option option"

record PartialBudget =
  pb_id :: "nat option"
  pb_userId :: "nat option"
  pb_category :: "string option"
  pb_amount :: "rat option"
  pb_period :: "string option"

record PartialGoal =
  pg_id :: "nat option"
  pg_userId :: "nat option"
  pg_name :: "string option"
  pg_targetAmount :: "rat option"
  pg_currentAmount :: "rat option"
  pg_deadline :: "int option option"


section \<open>The in-memory store (class MemStorage)\<close>

text \<open>
  A JavaScript \<open>Map<number, V>\<close> is an association list in insertion order:
  \<open>get\<close> is \<^const>\<open>map_of\<close>, \<open>set\<close> is \<^const>\<open>AList.update\<close> (an existing key keeps its
  place, a new key goes to the end), \<open>delete\<close> is \<^const>\<open>AList.delete\<close> and \<open>values()\<close> is
  \<open>map snd\<close>.
\<close>

record MemStorage =
  users :: "(nat \<times> User) list"
  notifications :: "(nat \<times> Notification) list"
  transactions :: "(nat \<times> Transaction) list"
  categories :: "(nat \<times> Category) list"
  incomes :: "(nat \<times> Income) list"
  budgets :: "(nat \<times> Budget) list"
  goals :: "(nat \<times> Goal) list"
  currentUserId :: nat
  currentNotificationId :: nat
  currentTransactionId :: nat
  currentCategoryId :: nat
  currentIncomeId :: nat
  currentBudgetId :: nat
  currentGoalId :: nat

definition MemStorage_new :: MemStorage where
  "MemStorage_new =
     \<lparr>users = [], notifications = [], transactions = [], categories = [], incomes = [],
      budgets = [], goals = [],
      currentUserId = 1, currentNotificationId = 1, currentTransactionId = 1,
      currentCategoryId = 1, currentIncomeId = 1, currentBudgetId = 1, currentGoalId = 1\<rparr>"

subsection \<open>The operator \<open>||\<close> on the values the create functions default\<close>

definition bool_or_false :: "bool option \<Rightarrow> bool" where
  "bool_or_false b = (case b of Some True \<Rightarrow> True | _ \<Rightarrow> False)"

definition string_or_null :: "string option \<Rightarrow> string option" where
  "string_or_null x = (case x of Some v \<Rightarrow> (if v = [] then None else Some v) | None \<Rightarrow> None)"

definition string_or :: "string option \<Rightarrow> string \<Rightarrow> string" where
  "string_or x d = (case x of Some v \<Rightarrow> (if v = [] then d else v) | None \<Rightarrow> d)"

definition number_or :: "rat option \<Rightarrow> rat \<Rightarrow> rat" where
  "number_or x d = (case x of Some v \<Rightarrow> (if v = 0 then d else v) | None \<Rightarrow> d)"

definition date_or :: "int option \<Rightarrow> int \<Rightarrow> int" where
  "date_or x d = (case x of Some v \<Rightarrow> v | None \<Rightarrow> d)"

subsection \<open>Users and notifications\<close>

text \<open>
  Every function that reads the clock (\<open>new Date()\<close>) takes the reading as its first
  argument \<open>now\<close>. The lookups \<open>getUserByUsername\<close>, \<open>getUserByEmail\<close> and
  \<open>getCategoryByName\<close> only read the store and no property below concerns them; they
  are left out.
\<close>

definition getUser :: "nat \<Rightarrow> MemStorage \<Rightarrow> User option" where
  "getUser i s = map_of (users s) i"

definition createUser :: "int \<Rightarrow> InsertUser \<Rightarrow> MemStorage \<Rightarrow> User \<times> MemStorage" where
  "createUser now insertUser s =
     (let i = currentUserId s;
          user = \<lparr>usr_id = i, usr_username = iu_username insertUser,
                  usr_name = iu_name insertUser, usr_email = iu_email insertUser,
                  usr_password = iu_password insertUser, usr_createdAt = now\<rparr>
      in (user, s\<lparr>currentUserId := i + 1, users := AList.update i user (users s)\<rparr>))"

definition getNotifications :: "nat \<Rightarrow> MemStorage \<Rightarrow> Notification list" where
  "getNotifications userId s =
     sort_key (\<lambda>n. - ntf_createdAt n)
       (filter (\<lambda>n. ntf_userId n = userId) (map snd (notifications s)))"

definition createNotification ::
    "int \<Rightarrow> InsertNotification \<Rightarrow> MemStorage \<Rightarrow> Notification \<times> MemStorage" where
  "createNotification now insertNotification s =
     (let i = currentNotificationId s;
          notification = \<lparr>ntf_id = i, ntf_userId = in_userId insertNotification,
                          ntf_message = in_message insertNotification,
                          ntf_read = bool_or_false (in_read insertNotification),
                          ntf_createdAt = now\<rparr>
      in (notification,
          s\<lparr>currentNotificationId := i + 1,
            notifications := AList.update i notification (notifications s)\<rparr>))"

definition markNotificationAsRead ::
    "nat \<Rightarrow> MemStorage \<Rightarrow> Notification option \<times> MemStorage" where
  "markNotificationAsRead i s =
     (case map_of (notifications s) i of
        None \<Rightarrow> (None, s)
      | Some notification \<Rightarrow>
          (let updatedNotification = notification\<lparr>ntf_read := True\<rparr>
           in (Some updatedNotification,
               s\<lparr>notifications := AList.update i updatedNotification (notifications s)\<rparr>)))"

definition markAllNotificationsAsRead :: "nat \<Rightarrow> MemStorage \<Rightarrow> MemStorage" where
  "markAllNotificationsAsRead userId s =
     fold (\<lambda>notification s'.
             if \<not> ntf_read notification
             then s'\<lparr>notifications :=
                       AList.update (ntf_id notification) (notification\<lparr>ntf_read := True\<rparr>)
                         (notifications s')\<rparr>
             else s')
       (getNotifications userId s) s"

subsection \<open>The spread \<open>{...row, ...update}\<close>\<close>

definition override :: "'a \<Rightarrow> 'a option \<Rightarrow> 'a" where
  "override old upd = (case upd of None \<Rightarrow> old | Some v \<Rightarrow> v)"

definition spread_transaction :: "Transaction \<Rightarrow> PartialTransaction \<Rightarrow> Transaction" where
  "spread_transaction t u =
     \<lparr>tx_id = override (tx_id t) (pt_id u), tx_userId = override (tx_userId t) (pt_userId u),
      tx_amount = override (tx_amount t) (pt_amount u),
      tx_category = override (tx_category t) (pt_category u),
      tx_description = override (tx_description t) (pt_description u),
      tx_date = override (tx_date t) (pt_date u), tx_type = override (tx_type t) (pt_type u),
      tx_recurring = override (tx_recurring t) (pt_recurring u),
      tx_note = override (tx_note t) (pt_note u)\<rparr>"

definition spread_income :: "Income \<Rightarrow> PartialIncome \<Rightarrow> Income" where
  "spread_income r u =
     \<lparr>inc_id = override (inc_id r) (pi_id u), inc_userId = override (inc_userId r) (pi_userId u),
      inc_source = override (inc_source r) (pi_source u),
      inc_amount = override (inc_amount r) (pi_amount u),
      inc_date = override (inc_date r) (pi_date u),
      inc_recurring = override (inc_recurring r) (pi_recurring u)\<rparr>"

definition spread_budget :: "Budget \<Rightarrow> PartialBudget \<Rightarrow> Budget" where
  "spread_budget r u =
     \<lparr>bud_id = override (bud_id r) (pb_id u), bud_userId = override (bud_userId r) (pb_userId u),
      bud_category = override (bud_category r) (pb_category u),
      bud_amount = override (bud_amount r) (pb_amount u),
      bud_period = override (bud_period r) (pb_period u)\<rparr>"

definition spread_goal :: "Goal \<Rightarrow> PartialGoal \<Rightarrow> Goal" where
  "spread_goal r u =
     \<lparr>goal_id = override (goal_id r) (pg_id u),
      goal_userId = override (goal_userId r) (pg_userId u),
      goal_name = override (goal_name r) (pg_name u),
      goal_targetAmount = override (goal_targetAmount r) (pg_targetAmount u),
      goal_currentAmount = override (goal_currentAmount r) (pg_currentAmount u),
      goal_deadline = override (goal_deadline r) (pg_deadline u)\<rparr>"

subsection \<open>Transactions\<close>

text \<open>
  \<open>sort((a, b) => b.date.getTime() - a.date.getTime())\<close> is a stable sort that puts the
  later date first: \<^const>\<open>sort_key\<close> (a stable insertion sort) on the negated date.
\<close>

definition getTransactions :: "nat \<Rightarrow> MemStorage \<Rightarrow> Transaction list" where
  "getTransactions userId s =
     sort_key (\<lambda>t. - tx_date t)
       (filter (\<lambda>t. tx_userId t = userId) (map snd (transactions s)))"

definition createTransaction ::
    "int \<Rightarrow> InsertTransaction \<Rightarrow> MemStorage \<Rightarrow> Transaction \<times> MemStorage" where
  "createTransaction now insertTransaction s =
     (let i = currentTransactionId s;
          transaction =
            \<lparr>tx_id = i, tx_userId = ti_userId insertTransaction,
             tx_amount = ti_amount insertTransaction,
             tx_category = ti_category insertTransaction,
             tx_description = ti_description insertTransaction,
             tx_date = date_or (ti_date insertTransaction) now,
             tx_type = ti_type insertTransaction,
             tx_recurring = Some (bool_or_false (ti_recurring insertTransaction)),
             tx_note = string_or_null (ti_note insertTransaction)\<rparr>
      in (transaction,
          s\<lparr>currentTransactionId := i + 1,
            transactions := AList.update i transaction (transactions s)\<rparr>))"

definition getTransactionById :: "nat \<Rightarrow> MemStorage \<Rightarrow> Transaction option" where
  "getTransactionById i s = map_of (transactions s) i"

definition updateTransaction ::
    "nat \<Rightarrow> PartialTransaction \<Rightarrow> MemStorage \<Rightarrow> Transaction option \<times> MemStorage" where
  "updateTransaction i transactionUpdate s =
     (case map_of (transactions s) i of
        None \<Rightarrow> (None, s)
      | Some transaction \<Rightarrow>
          (let updatedTransaction = spread_transaction transaction transactionUpdate
           in (Some updatedTransaction,
               s\<lparr>transactions := AList.update i updatedTransaction (transactions s)\<rparr>)))"

definition deleteTransaction :: "nat \<Rightarrow> MemStorage \<Rightarrow> bool \<times> MemStorage" where
  "deleteTransaction i s =
     (map_of (transactions s) i \<noteq> None, s\<lparr>transactions := AList.delete i (transactions s)\<rparr>)"

subsection \<open>Categories\<close>

definition getCategories :: "nat \<Rightarrow> MemStorage \<Rightarrow> Category list" where
  "getCategories userId s = filter (\<lambda>c. cat_userId c = userId) (map snd (categories s))"

definition createCategory ::
    "int \<Rightarrow> InsertCategory \<Rightarrow> MemStorage \<Rightarrow> Category \<times> MemStorage" where
  "createCategory now insertCategory s =
     (let i = currentCategoryId s;
          category =
            \<lparr>cat_id = i, cat_userId = ci_userId insertCategory,
             cat_name = ci_name insertCategory,
             cat_type = Some (string_or (ci_type insertCategory) ''expense''),
             cat_createdAt = now\<rparr>
      in (category,
          s\<lparr>currentCategoryId := i + 1,
            categories := AList.update i category (categories s)\<rparr>))"

subsection \<open>Incomes\<close>

definition getIncomes :: "nat \<Rightarrow> MemStorage \<Rightarrow> Income list" where
  "getIncomes userId s =
     sort_key (\<lambda>r. - inc_date r)
       (filter (\<lambda>r. inc_userId r = userId) (map snd (incomes s)))"

definition createIncome :: "int \<Rightarrow> InsertIncome \<Rightarrow> MemStorage \<Rightarrow> Income \<times> MemStorage" where
  "createIncome now insertIncome s =
     (let i = currentIncomeId s;
          income =
            \<lparr>inc_id = i, inc_userId = ii_userId insertIncome,
             inc_source = ii_source insertIncome, inc_amount = ii_amount insertIncome,
             inc_date = date_or (ii_date insertIncome) now,
             inc_recurring = Some (bool_or_false (ii_recurring insertIncome))\<rparr>
      in (income,
          s\<lparr>currentIncomeId := i + 1, incomes := AList.update i income (incomes s)\<rparr>))"

definition updateIncome ::
    "nat \<Rightarrow> PartialIncome \<Rightarrow> MemStorage \<Rightarrow> Income option \<times> MemStorage" where
  "updateIncome i incomeUpdate s =
     (case map_of (incomes s) i of
        None \<Rightarrow> (None, s)
      | Some income \<Rightarrow>
          (let updatedIncome = spread_income income incomeUpdate
           in (Some updatedIncome,
               s\<lparr>incomes := AList.update i updatedIncome (incomes s)\<rparr>)))"

definition deleteIncome :: "nat \<Rightarrow> MemStorage \<Rightarrow> bool \<times> MemStorage" where
  "deleteIncome i s =
     (map_of (incomes s) i \<noteq> None, s\<lparr>incomes := AList.delete i (incomes s)\<rparr>)"

subsection \<open>Budgets\<close>

definition getBudgets :: "nat \<Rightarrow> MemStorage \<Rightarrow> Budget list" where
  "getBudgets userId s = filter (\<lambda>b. bud_userId b = userId) (map snd (budgets s))"

definition createBudget :: "InsertBudget \<Rightarrow> MemStorage \<Rightarrow> Budget \<times> MemStorage" where
  "createBudget insertBudget s =
     (let i = currentBudgetId s;
          budget =
            \<lparr>bud_id = i, bud_userId = ib_userId insertBudget,
             bud_category = ib_category insertBudget, bud_amount = ib_amount insertBudget,
             bud_period = ib_period insertBudget\<rparr>
      in (budget,
          s\<lparr>currentBudgetId := i + 1, budgets := AList.update i budget (budgets s)\<rparr>))"

definition updateBudget ::
    "nat \<Rightarrow> PartialBudget \<Rightarrow> MemStorage \<Rightarrow> Budget option \<times> MemStorage" where
  "updateBudget i budgetUpdate s =
     (case map_of (budgets s) i of
        None \<Rightarrow> (None, s)
      | Some budget \<Rightarrow>
          (let updatedBudget = spread_budget budget budgetUpdate
           in (Some updatedBudget,
               s\<lparr>budgets := AList.update i updatedBudget (budgets s)\<rparr>)))"

definition deleteBudget :: "nat \<Rightarrow> MemStorage \<Rightarrow> bool \<times> MemStorage" where
  "deleteBudget i s =
     (map_of (budgets s) i \<noteq> None, s\<lparr>budgets := AList.delete i (budgets s)\<rparr>)"

subsection \<open>Goals\<close>

definition getGoals :: "nat \<Rightarrow> MemStorage \<Rightarrow> Goal list" where
  "getGoals userId s = filter (\<lambda>g. goal_userId g = userId) (map snd (goals s))"

definition createGoal :: "InsertGoal \<Rightarrow> MemStorage \<Rightarrow> Goal \<times> MemStorage" where
  "createGoal insertGoal s =
     (let i = currentGoalId s;
          goal =
            \<lparr>goal_id = i, goal_userId = ig_userId insertGoal, goal_name = ig_name insertGoal,
             goal_targetAmount = ig_targetAmount insertGoal,
             goal_currentAmount = number_or (ig_currentAmount insertGoal) 0,
             goal_deadline = ig_deadline insertGoal\<rparr>
      in (goal, s\<lparr>currentGoalId := i + 1, goals := AList.update i goal (goals s)\<rparr>))"

definition updateGoal :: "nat \<Rightarrow> PartialGoal \<Rightarrow> MemStorage \<Rightarrow> Goal option \<times> MemStorage" where
  "updateGoal i goalUpdate s =
     (case map_of (goals s) i of
        None \<Rightarrow> (None, s)
      | Some goal \<Rightarrow>
          (let updatedGoal = spread_goal goal goalUpdate
           in (Some updatedGoal, s\<lparr>goals := AList.update i updatedGoal (goals s)\<rparr>)))"

definition deleteGoal :: "nat \<Rightarrow> MemStorage \<Rightarrow> bool \<times> MemStorage" where
  "deleteGoal i s =
     (map_of (goals s) i \<noteq> None, s\<lparr>goals := AList.delete i (goals s)\<rparr>)"

section \<open>Analytics\<close>


text \<open>
  \<open>getSpendingByCategory\<close> accumulates into a \<open>Map<string, number>\<close> (an association list
  in insertion order) and a running total.
\<close>

definition accumulate ::
    "Transaction \<Rightarrow> (string \<times> rat) list \<times> rat \<Rightarrow> (string \<times> rat) list \<times> rat" where
  "accumulate transaction acc =
     (let categoryMap = fst acc; totalSpent = snd acc;
          category = tx_category transaction; amount = tx_amount transaction;
          currentAmount = number_or (map_of categoryMap category) 0
      in (AList.update category (currentAmount + amount) categoryMap, totalSpent + amount))"


text \<open>
  \<open>getSpendingReport\<close> accumulates into a plain object \<open>{}\<close>, whose prototype is
  \<open>Object.prototype\<close>. Reading \<open>byCategory[k]\<close> for a \<open>k\<close> that is not an own property
  finds the inherited property when \<open>k\<close> names one: a function, or for \<open>__proto__\<close> the
  prototype object itself, and both are truthy. Adding a number to such a value, or to a
  string, gives a string; its text is not modelled. Assigning a string to \<open>__proto__\<close>
  calls the inherited setter, which ignores a value that is neither an object nor null,
  so no own property appears; any other assignment creates or updates an own property.
\<close>

datatype jsvalue = Number rat | String

datatype property = Own jsvalue | Inherited | Undefined

definition Object_prototype :: "string list" where
  "Object_prototype =
     [''constructor'', ''__defineGetter__'', ''__defineSetter__'', ''hasOwnProperty'',
      ''__lookupGetter__'', ''__lookupSetter__'', ''isPrototypeOf'',
      ''propertyIsEnumerable'', ''toString'', ''valueOf'', ''__proto__'',
      ''toLocaleString'']"

definition object_get :: "(string \<times> jsvalue) list \<Rightarrow> string \<Rightarrow> property" where
  "object_get obj k =
     (case map_of obj k of
        Some v \<Rightarrow> Own v
      | None \<Rightarrow> if k \<in> set Object_prototype then Inherited else Undefined)"

definition object_set ::
    "string \<Rightarrow> jsvalue \<Rightarrow> (string \<times> jsvalue) list \<Rightarrow> (string \<times> jsvalue) list" where
  "object_set k v obj = (if k = ''__proto__'' then obj else AList.update k v obj)"

definition or_zero_plus :: "property \<Rightarrow> rat \<Rightarrow> jsvalue" where
  "or_zero_plus p amount =
     (case p of
        Own (Number n) \<Rightarrow> Number ((if n = 0 then 0 else n) + amount)
      | Own String \<Rightarrow> String
      | Inherited \<Rightarrow> String
      | Undefined \<Rightarrow> Number (0 + amount))"

record SpendingReport =
  sr_total :: rat
  sr_byCategory :: "(string \<times> jsvalue) list"

definition report_step :: "Transaction \<Rightarrow> SpendingReport \<Rightarrow> SpendingReport" where
  "report_step expense acc =
     \<lparr>sr_total = sr_total acc + tx_amount expense,
      sr_byCategory =
        object_set (tx_category expense)
          (or_zero_plus (object_get (sr_byCategory acc) (tx_category expense))
             (tx_amount expense))
          (sr_byCategory acc)\<rparr>"

definition getSpendingReport :: "nat \<Rightarrow> MemStorage \<Rightarrow> SpendingReport" where
  "getSpendingReport userId s =
     (let transactions = getTransactions userId s;
          expenseTransactions = filter (\<lambda>t. tx_type t = ''expense'') transactions
      in fold report_step expenseTransactions \<lparr>sr_total = 0, sr_byCategory = []\<rparr>)"

section \<open>Backup and restore\<close>

record Backup =
  bk_transactions :: "Transaction list"
  bk_incomes :: "Income list"
  bk_budgets :: "Budget list"
  bk_goals :: "Goal list"
  bk_categories :: "Category list"

definition createBackup :: "nat \<Rightarrow> MemStorage \<Rightarrow> Backup" where
  "createBackup userId s =
     \<lparr>bk_transactions = getTransactions userId s, bk_incomes = getIncomes userId s,
      bk_budgets = getBudgets userId s, bk_goals = getGoals userId s,
      bk_categories = getCategories userId s\<rparr>"

text \<open>
  The argument \<open>data\<close> of \<open>restoreBackup\<close> is untyped. A key that is missing (or holds
  no array) is \<open>None\<close>; the items of an array are objects as the create functions read
  them.
\<close>

record RestoreData =
  rd_transactions :: "InsertTransaction list option"
  rd_incomes :: "InsertIncome list option"
  rd_budgets :: "InsertBudget list option"
  rd_goals :: "InsertGoal list option"
  rd_categories :: "InsertCategory list option"

text \<open>
  \<open>restoreBackup\<close> first reads the user's rows of the five tables, then runs five
  \<open>forEach\<close> loops that delete from each map the key held in the \<open>id\<close> of each row
  read, then five loops that call the create functions on \<open>{...item, userId}\<close>. Each
  loop is a \<open>fold\<close> below. The create calls of one restore all receive the same
  clock reading \<open>now\<close>.
\<close>

definition remove_transactions :: "Transaction list \<Rightarrow> MemStorage \<Rightarrow> MemStorage" where
  "remove_transactions userTransactions s =
     fold (\<lambda>t s'. s'\<lparr>transactions := AList.delete (tx_id t) (transactions s')\<rparr>)
       userTransactions s"

definition remove_incomes :: "Income list \<Rightarrow> MemStorage \<Rightarrow> MemStorage" where
  "remove_incomes userIncomes s =
     fold (\<lambda>i s'. s'\<lparr>incomes := AList.delete (inc_id i) (incomes s')\<rparr>) userIncomes s"

definition remove_budgets :: "Budget list \<Rightarrow> MemStorage \<Rightarrow> MemStorage" where
  "remove_budgets userBudgets s =
     fold (\<lambda>b s'. s'\<lparr>budgets := AList.delete (bud_id b) (budgets s')\<rparr>) userBudgets s"

definition remove_goals :: "Goal list \<Rightarrow> MemStorage \<Rightarrow> MemStorage" where
  "remove_goals userGoals s =
     fold (\<lambda>g s'. s'\<lparr>goals := AList.delete (goal_id g) (goals s')\<rparr>) userGoals s"

definition remove_categories :: "Category list \<Rightarrow> MemStorage \<Rightarrow> MemStorage" where
  "remove_categories userCategories s =
     fold (\<lambda>c s'. s'\<lparr>categories := AList.delete (cat_id c) (categories s')\<rparr>)
       userCategories s"

definition restore_transactions ::
    "int \<Rightarrow> nat \<Rightarrow> InsertTransaction list option \<Rightarrow> MemStorage \<Rightarrow> MemStorage" where
  "restore_transactions now userId arr s =
     (case arr of
        None \<Rightarrow> s
      | Some items \<Rightarrow>
          fold (\<lambda>transaction s'.
                  snd (createTransaction now (transaction\<lparr>ti_userId := userId\<rparr>) s'))
            items s)"

definition restore_incomes ::
    "int \<Rightarrow> nat \<Rightarrow> InsertIncome list option \<Rightarrow> MemStorage \<Rightarrow> MemStorage" where
  "restore_incomes now userId arr s =
     (case arr of
        None \<Rightarrow> s
      | Some items \<Rightarrow>
          fold (\<lambda>income s'. snd (createIncome now (income\<lparr>ii_userId := userId\<rparr>) s'))
            items s)"

definition restore_budgets ::
    "nat \<Rightarrow> InsertBudget list option \<Rightarrow> MemStorage \<Rightarrow> MemStorage" where
  "restore_budgets userId arr s =
     (case arr of
        None \<Rightarrow> s
      | Some items \<Rightarrow>
          fold (\<lambda>budget s'. snd (createBudget (budget\<lparr>ib_userId := userId\<rparr>) s')) items s)"

definition restore_goals :: "nat \<Rightarrow> InsertGoal list option \<Rightarrow> MemStorage \<Rightarrow> MemStorage" where
  "restore_goals userId arr s =
     (case arr of
        None \<Rightarrow> s
      | Some items \<Rightarrow>
          fold (\<lambda>goal s'. snd (createGoal (goal\<lparr>ig_userId := userId\<rparr>) s')) items s)"

definition restore_categories ::
    "int \<Rightarrow> nat \<Rightarrow> InsertCategory list option \<Rightarrow> MemStorage \<Rightarrow> MemStorage" where
  "restore_categories now userId arr s =
     (case arr of
        None \<Rightarrow> s
      | Some items \<Rightarrow>
          fold (\<lambda>category s'.
                  snd (createCategory now (category\<lparr>ci_userId := userId\<rparr>) s'))
            items s)"

definition restoreBackup :: "int \<Rightarrow> nat \<Rightarrow> RestoreData \<Rightarrow> MemStorage \<Rightarrow> MemStorage" where
  "restoreBackup now userId data s =
     (let userTransactions = getTransactions userId s;
          userIncomes = getIncomes userId s;
          userBudgets = getBudgets userId s;
          userGoals = getGoals userId s;
          userCategories = getCategories userId s
      in restore_categories now userId (rd_categories data)
           (restore_goals userId (rd_goals data)
             (restore_budgets userId (rd_budgets data)
               (restore_incomes now userId (rd_incomes data)
                 (restore_transactions now userId (rd_transactions data)
                   (remove_categories userCategories
                     (remove_goals userGoals
                       (remove_budgets userBudgets
                         (remove_incomes userIncomes
                           (remove_transactions userTransactions s))))))))))"

text \<open>
  The backup object handed back to \<open>restoreBackup\<close> as it is: each row read as the
  object it is, with its \<open>id\<close> (and \<open>createdAt\<close>) among its properties.
\<close>

definition transaction_as_item :: "Transaction \<Rightarrow> InsertTransaction" where
  "transaction_as_item t =
     \<lparr>ti_id = Some (tx_id t), ti_userId = tx_userId t, ti_amount = tx_amount t,
      ti_category = tx_category t, ti_description = tx_description t,
      ti_date = Some (tx_date t), ti_type = tx_type t, ti_recurring = tx_recurring t,
      ti_note = tx_note t\<rparr>"

definition income_as_item :: "Income \<Rightarrow> InsertIncome" where
  "income_as_item r =
     \<lparr>ii_id = Some (inc_id r), ii_userId = inc_userId r, ii_source = inc_source r,
      ii_amount = inc_amount r, ii_date = Some (inc_date r), ii_recurring = inc_recurring r\<rparr>"

definition budget_as_item :: "Budget \<Rightarrow> InsertBudget" where
  "budget_as_item r =
     \<lparr>ib_id = Some (bud_id r), ib_userId = bud_userId r, ib_category = bud_category r,
      ib_amount = bud_amount r, ib_period = bud_period r\<rparr>"

definition goal_as_item :: "Goal \<Rightarrow> InsertGoal" where
  "goal_as_item r =
     \<lparr>ig_id = Some (goal_id r), ig_userId = goal_userId r, ig_name = goal_name r,
      ig_targetAmount = goal_targetAmount r, ig_currentAmount = Some (goal_currentAmount r),
      ig_deadline = goal_deadline r\<rparr>"

definition category_as_item :: "Category \<Rightarrow> InsertCategory" where
  "category_as_item r =
     \<lparr>ci_id = Some (cat_id r), ci_userId = cat_userId r, ci_name = cat_name r,
      ci_type = cat_type r, ci_createdAt = Some (cat_createdAt r)\<rparr>"

definition backup_as_data :: "Backup \<Rightarrow> RestoreData" where
  "backup_as_data b =
     \<lparr>rd_transactions = Some (map transaction_as_item (bk_transactions b)),
      rd_incomes = Some (map income_as_item (bk_incomes b)),
      rd_budgets = Some (map budget_as_item (bk_budgets b)),
      rd_goals = Some (map goal_as_item (bk_goals b)),
      rd_categories = Some (map category_as_item (bk_categories b))\<rparr>"

section \<open>Sequences of storage operations\<close>

datatype operation =
    CreateUser int InsertUser
  | CreateNotification int InsertNotification
  | MarkNotificationAsRead nat
  | MarkAllNotificationsAsRead nat
  | CreateTransaction int InsertTransaction
  | UpdateTransaction nat PartialTransaction
  | DeleteTransaction nat
  | CreateCategory int InsertCategory
  | CreateIncome int InsertIncome
  | UpdateIncome nat PartialIncome
  | DeleteIncome nat
  | CreateBudget InsertBudget
  | UpdateBudget nat PartialBudget
  | DeleteBudget nat
  | CreateGoal InsertGoal
  | UpdateGoal nat PartialGoal
  | DeleteGoal nat
  | RestoreBackup int nat RestoreData

fun perform :: "operation \<Rightarrow> MemStorage \<Rightarrow> MemStorage" where
  "perform (CreateUser now u) s = snd (createUser now u s)"
| "perform (CreateNotification now n) s = snd (createNotification now n s)"
| "perform (MarkNotificationAsRead i) s = snd (markNotificationAsRead i s)"
| "perform (MarkAllNotificationsAsRead u) s = markAllNotificationsAsRead u s"
| "perform (CreateTransaction now t) s = snd (createTransaction now t s)"
| "perform (UpdateTransaction i u) s = snd (updateTransaction i u s)"
| "perform (DeleteTransaction i) s = snd (deleteTransaction i s)"
| "perform (CreateCategory now c) s = snd (createCategory now c s)"
| "perform (CreateIncome now r) s = snd (createIncome now r s)"
| "perform (UpdateIncome i u) s = snd (updateIncome i u s)"
| "perform (DeleteIncome i) s = snd (deleteIncome i s)"
| "perform (CreateBudget b) s = snd (createBudget b s)"
| "perform (UpdateBudget i u) s = snd (updateBudget i u s)"
| "perform (DeleteBudget i) s = snd (deleteBudget i s)"
| "perform (CreateGoal g) s = snd (createGoal g s)"
| "perform (UpdateGoal i u) s = snd (updateGoal i u s)"
| "perform (DeleteGoal i) s = snd (deleteGoal i s)"
| "perform (RestoreBackup now u d) s = restoreBackup now u d s"

definition run :: "operation list \<Rightarrow> MemStorage" where
  "run ops = fold perform ops MemStorage_new"

section \<open>Notions used to state the properties\<close>

text \<open>
  A table is well-kept under its counter when its keys are strictly increasing (so
  pairwise distinct, and the iteration order of the map is the order of the keys) and
  all below the counter.
\<close>

definition table_ok :: "nat \<Rightarrow> (nat \<times> 'a) list \<Rightarrow> bool" where
  "table_ok c tbl \<longleftrightarrow> sorted_wrt (<) (map fst tbl) \<and> (\<forall>k \<in> set (map fst tbl). k < c)"

definition keyed_by :: "('a \<Rightarrow> nat) \<Rightarrow> (nat \<times> 'a) list \<Rightarrow> bool" where
  "keyed_by rid tbl \<longleftrightarrow> (\<forall>e \<in> set tbl. rid (snd e) = fst e)"

text \<open>The type of every stored category is a non-empty string.\<close>

definition typed :: "(nat \<times> Category) list \<Rightarrow> bool" where
  "typed tbl \<longleftrightarrow>
     (\<forall>e \<in> set tbl. cat_type (snd e) = Some (string_or (cat_type (snd e)) ''expense''))"

definition store_ok :: "MemStorage \<Rightarrow> bool" where
  "store_ok s \<longleftrightarrow>
     table_ok (currentUserId s) (users s) \<and>
     table_ok (currentNotificationId s) (notifications s) \<and>
     table_ok (currentTransactionId s) (transactions s) \<and>
     table_ok (currentCategoryId s) (categories s) \<and>
     table_ok (currentIncomeId s) (incomes s) \<and>
     table_ok (currentBudgetId s) (budgets s) \<and>
     table_ok (currentGoalId s) (goals s) \<and>
     keyed_by ntf_id (notifications s) \<and> typed (categories s)"

text \<open>Every row of the five restorable tables carries its own map key as \<open>id\<close>.\<close>

definition ids_match :: "MemStorage \<Rightarrow> bool" where
  "ids_match s \<longleftrightarrow>
     keyed_by tx_id (transactions s) \<and> keyed_by inc_id (incomes s) \<and>
     keyed_by bud_id (budgets s) \<and> keyed_by goal_id (goals s) \<and>
     keyed_by cat_id (categories s)"

text \<open>The expense transactions of a user, in the order of the table.\<close>

definition expenses :: "nat \<Rightarrow> MemStorage \<Rightarrow> Transaction list" where
  "expenses userId s =
     filter (\<lambda>t. tx_userId t = userId \<and> tx_type t = ''expense'') (map snd (transactions s))"

text \<open>
  The row a create function stores for the object \<open>{...item, userId}\<close> when the counter
  stands at \<open>i\<close>.
\<close>

definition transaction_row :: "int \<Rightarrow> nat \<Rightarrow> nat \<Rightarrow> InsertTransaction \<Rightarrow> Transaction" where
  "transaction_row now userId i item =
     \<lparr>tx_id = i, tx_userId = userId, tx_amount = ti_amount item,
      tx_category = ti_category item, tx_description = ti_description item,
      tx_date = date_or (ti_date item) now, tx_type = ti_type item,
      tx_recurring = Some (bool_or_false (ti_recurring item)),
      tx_note = string_or_null (ti_note item)\<rparr>"

definition income_row :: "int \<Rightarrow> nat \<Rightarrow> nat \<Rightarrow> InsertIncome \<Rightarrow> Income" where
  "income_row now userId i item =
     \<lparr>inc_id = i, inc_userId = userId, inc_source = ii_source item,
      inc_amount = ii_amount item, inc_date = date_or (ii_date item) now,
      inc_recurring = Some (bool_or_false (ii_recurring item))\<rparr>"

definition budget_row :: "nat \<Rightarrow> nat \<Rightarrow> InsertBudget \<Rightarrow> Budget" where
  "budget_row userId i item =
     \<lparr>bud_id = i, bud_userId = userId, bud_category = ib_category item,
      bud_amount = ib_amount item, bud_period = ib_period item\<rparr>"

definition goal_row :: "nat \<Rightarrow> nat \<Rightarrow> InsertGoal \<Rightarrow> Goal" where
  "goal_row userId i item =
     \<lparr>goal_id = i, goal_userId = userId, goal_name = ig_name item,
      goal_targetAmount = ig_targetAmount item,
      goal_currentAmount = number_or (ig_currentAmount item) 0,
      goal_deadline = ig_deadline item\<rparr>"

definition category_row :: "int \<Rightarrow> nat \<Rightarrow> nat \<Rightarrow> InsertCategory \<Rightarrow> Category" where
  "category_row now userId i item =
     \<lparr>cat_id = i, cat_userId = userId, cat_name = ci_name item,
      cat_type = Some (string_or (ci_type item) ''expense''), cat_createdAt = now\<rparr>"

text \<open>The number of items a restore payload holds under a key (none when it is absent).\<close>

definition item_count :: "'a list option \<Rightarrow> nat" where
  "item_count arr = (case arr of None \<Rightarrow> 0 | Some items \<Rightarrow> length items)"

definition items_of :: "'a list option \<Rightarrow> 'a list" where
  "items_of arr = (case arr of None \<Rightarrow> [] | Some items \<Rightarrow> items)"

text \<open>
  Examples: an expense, an update that changes nothing, a payload with no key, and the
  link between a table before and after a restore that inserted \<open>n\<close> rows for \<open>userId\<close>
  when the counter stood at \<open>c\<close>.
\<close>

definition expense :: "nat \<Rightarrow> string \<Rightarrow> rat \<Rightarrow> int \<Rightarrow> InsertTransaction" where
  "expense userId category amount date =
     \<lparr>ti_id = None, ti_userId = userId, ti_amount = amount, ti_category = category,
      ti_description = [], ti_date = Some date, ti_type = ''expense'', ti_recurring = None,
      ti_note = None\<rparr>"

definition no_change :: PartialTransaction where
  "no_change =
     \<lparr>pt_id = None, pt_userId = None, pt_amount = None, pt_category = None,
      pt_description = None, pt_date = None, pt_type = None, pt_recurring = None,
      pt_note = None\<rparr>"

definition no_keys :: RestoreData where
  "no_keys =
     \<lparr>rd_transactions = None, rd_incomes = None, rd_budgets = None, rd_goals = None,
      rd_categories = None\<rparr>"


definition income_item :: "nat \<Rightarrow> string \<Rightarrow> rat \<Rightarrow> int \<Rightarrow> InsertIncome" where
  "income_item userId source amount date =
     \<lparr>ii_id = None, ii_userId = userId, ii_source = source, ii_amount = amount,
      ii_date = Some date, ii_recurring = None\<rparr>"

definition budget_item :: "nat \<Rightarrow> string \<Rightarrow> rat \<Rightarrow> InsertBudget" where
  "budget_item userId category amount =
     \<lparr>ib_id = None, ib_userId = userId, ib_category = category, ib_amount = amount,
      ib_period = ''monthly''\<rparr>"

definition goal_item :: "nat \<Rightarrow> string \<Rightarrow> rat \<Rightarrow> InsertGoal" where
  "goal_item userId name target =
     \<lparr>ig_id = None, ig_userId = userId, ig_name = name, ig_targetAmount = target,
      ig_currentAmount = None, ig_deadline = None\<rparr>"

definition category_item :: "nat \<Rightarrow> string \<Rightarrow> InsertCategory" where
  "category_item userId name =
     \<lparr>ci_id = None, ci_userId = userId, ci_name = name, ci_type = None,
      ci_createdAt = None\<rparr>"

definition no_change_income :: PartialIncome where
  "no_change_income =
     \<lparr>pi_id = None, pi_userId = None, pi_source = None, pi_amount = None, pi_date = None,
      pi_recurring = None\<rparr>"

definition no_change_budget :: PartialBudget where
  "no_change_budget =
     \<lparr>pb_id = None, pb_userId = None, pb_category = None, pb_amount = None,
      pb_period = None\<rparr>"

definition no_change_goal :: PartialGoal where
  "no_change_goal =
     \<lparr>pg_id = None, pg_userId = None, pg_name = None, pg_targetAmount = None,
      pg_currentAmount = None, pg_deadline = None\<rparr>"

text \<open>
  A small store: user 1 holds three expenses (the example of the specification), an
  income, a budget, a goal and a category; user 2 holds one expense and one budget.
\<close>

definition demo_ops :: "operation list" where
  "demo_ops =
     [CreateTransaction 0 (expense 1 ''food'' 50 10),
      CreateTransaction 0 (expense 2 ''rent'' 700 11),
      CreateTransaction 0 (expense 1 ''food'' 30 12),
      CreateTransaction 0 (expense 1 ''transport'' 20 11),
      CreateIncome 0 (income_item 1 ''salary'' 2000 5),
      CreateBudget (budget_item 1 ''food'' 300),
      CreateBudget (budget_item 2 ''rent'' 800),
      CreateGoal (goal_item 1 ''bike'' 900),
      CreateCategory 3 (category_item 1 ''food'')]"

definition demo :: MemStorage where
  "demo = run demo_ops"

text \<open>Reading a \<open>Map<string, number>\<close> with \<open>get(k) || 0\<close>.\<close>

definition lookup0 :: "(string \<times> rat) list \<Rightarrow> string \<Rightarrow> rat" where
  "lookup0 m c = (case map_of m c of None \<Rightarrow> 0 | Some v \<Rightarrow> v)"


text \<open>The category map and the running total of \<open>getSpendingByCategory\<close>.\<close>

definition category_acc :: "nat \<Rightarrow> MemStorage \<Rightarrow> (string \<times> rat) list \<times> rat" where
  "category_acc userId s =
     fold accumulate (filter (\<lambda>t. tx_type t = ''expense'') (getTransactions userId s)) ([], 0)"



text \<open>
  Stores reached through the operations of the class: one expense in the category
  \<open>__proto__\<close>; two users with one transaction each, after the first user patched the
  \<open>id\<close> of their transaction to 2; and one transaction whose \<open>id\<close> was patched to 7.
\<close>

definition proto :: MemStorage where
  "proto = run [CreateTransaction 0 (expense 1 ''__proto__'' 5 0)]"

definition clash :: MemStorage where
  "clash =
     run [CreateTransaction 0 (expense 1 ''food'' 50 10),
          CreateTransaction 0 (expense 2 ''rent'' 700 11),
          UpdateTransaction 1 (no_change\<lparr>pt_id := Some 2\<rparr>)]"

definition stale :: MemStorage where
  "stale =
     run [CreateTransaction 0 (expense 1 ''food'' 50 10),
          UpdateTransaction 1 (no_change\<lparr>pt_id := Some 7\<rparr>)]"

text \<open>The values of a report's \<open>byCategory\<close> that are numbers.\<close>

definition number_values :: "(string \<times> jsvalue) list \<Rightarrow> rat list" where
  "number_values obj = concat (map (\<lambda>e. case snd e of Number n \<Rightarrow> [n] | String \<Rightarrow> []) obj)"

text \<open>
  What a restore does to one table: \<open>T\<close> before, \<open>T'\<close> after, \<open>c\<close> the counter before and
  \<open>n\<close> the number of items in the payload. Every key of \<open>T\<close> is below \<open>c\<close>; the entries
  of \<open>T'\<close> below \<open>c\<close> are entries of \<open>T\<close>; the entries of \<open>T'\<close> from \<open>c\<close> on are \<open>n\<close> rows
  under the keys \<open>c\<close>, \<open>c + 1\<close>, ..., each with its key as \<open>id\<close> and \<open>u\<close> as \<open>userId\<close>.
\<close>

definition fresh_rows ::
    "('a \<Rightarrow> nat) \<Rightarrow> ('a \<Rightarrow> nat) \<Rightarrow> nat \<Rightarrow> nat \<Rightarrow> nat \<Rightarrow>
     (nat \<times> 'a) list \<Rightarrow> (nat \<times> 'a) list \<Rightarrow> bool" where
  "fresh_rows rid owner u c n T T' \<longleftrightarrow>
     (\<forall>e \<in> set T. fst e < c) \<and>
     set (filter (\<lambda>e. fst e < c) T') \<subseteq> set T \<and>
     map fst (filter (\<lambda>e. c \<le> fst e) T') = [c ..< c + n] \<and>
     (\<forall>e \<in> set T'. c \<le> fst e \<longrightarrow> rid (snd e) = fst e \<and> owner (snd e) = u)"

text \<open>A payload whose items carry ids and user ids of their own.\<close>

definition sample :: RestoreData where
  "sample =
     \<lparr>rd_transactions =
        Some [(expense 42 ''books'' 12 20)\<lparr>ti_id := Some 1\<rparr>,
              (expense 43 ''food'' 8 21)\<lparr>ti_id := Some 99\<rparr>],
      rd_incomes = Some [(income_item 42 ''gift'' 100 3)\<lparr>ii_id := Some 1\<rparr>],
      rd_budgets = Some [(budget_item 42 ''books'' 40)\<lparr>ib_id := Some 2\<rparr>],
      rd_goals = Some [(goal_item 42 ''boat'' 5000)\<lparr>ig_id := Some 1\<rparr>],
      rd_categories = Some [(category_item 42 ''books'')\<lparr>ci_id := Some 1\<rparr>]\<rparr>"

text \<open>\<open>createBackup\<close> followed by \<open>restoreBackup\<close> on exactly the backup's output.\<close>

definition roundtrip :: "int \<Rightarrow> nat \<Rightarrow> MemStorage \<Rightarrow> MemStorage" where
  "roundtrip now userId s = restoreBackup now userId (backup_as_data (createBackup userId s)) s"

section \<open>Tables and the store invariant\<close>

lemma update_fresh:
  fixes c :: nat
  shows "\<forall>k \<in> set (map fst tbl). k < c \<Longrightarrow> AList.update c v tbl = tbl @ [(c, v)]"
  by (induction tbl) auto

lemma table_ok_fresh: "table_ok c tbl \<Longrightarrow> table_ok (Suc c) (AList.update c v tbl)"
  by (auto simp: table_ok_def update_fresh sorted_wrt_append less_Suc_eq)

lemma update_present_keys: "k \<in> fst ` set tbl \<Longrightarrow> map fst (AList.update k v tbl) = map fst tbl"
  by (simp add: update_keys)

lemma table_ok_present: "table_ok c tbl \<Longrightarrow> map_of tbl k = Some v \<Longrightarrow> table_ok c (AList.update k v' tbl)"
  unfolding table_ok_def using update_present_keys[of k tbl v'] by (metis domI dom_map_of_conv_image_fst)

lemma table_ok_delete: "table_ok c tbl \<Longrightarrow> table_ok c (AList.delete k tbl)"
  by (auto simp: table_ok_def delete_keys sorted_wrt_filter removeAll_filter_not_eq)

lemma table_ok_filter: "table_ok c tbl \<Longrightarrow> table_ok c (filter P tbl)"
  by (auto simp: table_ok_def sorted_wrt_map sorted_wrt_filter)

lemma table_ok_distinct: "table_ok c tbl \<Longrightarrow> distinct (map fst tbl)"
  by (auto simp: table_ok_def strict_sorted_iff)

lemma table_ok_below: "table_ok c tbl \<Longrightarrow> \<forall>k \<in> set (map fst tbl). k < c"
  by (simp add: table_ok_def)

lemma store_ok_MemStorage_new: "store_ok MemStorage_new"
  by (simp add: store_ok_def MemStorage_new_def table_ok_def keyed_by_def typed_def)

lemma keyed_by_fresh:
  "keyed_by rid tbl \<Longrightarrow> \<forall>k \<in> set (map fst tbl). k < c \<Longrightarrow> rid v = c \<Longrightarrow> keyed_by rid (AList.update c v tbl)"
  by (auto simp: keyed_by_def update_fresh)

lemma set_update_subset: "set (AList.update k v tbl) \<subseteq> insert (k, v) (set tbl)"
  by (induction tbl) auto

lemma keyed_by_update: "keyed_by rid tbl \<Longrightarrow> rid v = k \<Longrightarrow> keyed_by rid (AList.update k v tbl)"
  using set_update_subset[of k v tbl] by (auto simp: keyed_by_def)

lemma keyed_by_delete: "keyed_by rid tbl \<Longrightarrow> keyed_by rid (AList.delete k tbl)"
  by (auto simp: keyed_by_def AList.delete_eq)

lemma fold_delete_filter:
  "fold (\<lambda>r. AList.delete (f r)) rs tbl = filter (\<lambda>e. fst e \<notin> f ` set rs) tbl"
proof (induction rs arbitrary: tbl)
  case Nil
  then show ?case by simp
next
  case (Cons r rs)
  have "AList.delete (f r) tbl = filter (\<lambda>e. fst e \<noteq> f r) tbl"
    by (auto simp: AList.delete_eq intro: filter_cong)
  then show ?case using Cons by (auto intro: filter_cong)
qed

lemma fold_update_enumerate:
  fixes c :: nat
  shows "\<forall>k \<in> set (map fst tbl). k < c \<Longrightarrow>
    fold (\<lambda>(i, item). AList.update i (f i item)) (enumerate c items) tbl =
    tbl @ map (\<lambda>(i, item). (i, f i item)) (enumerate c items)"
proof (induction items arbitrary: c tbl)
  case Nil
  then show ?case by simp
next
  case (Cons x xs)
  have "\<forall>k \<in> set (map fst (tbl @ [(c, f c x)])). k < Suc c"
    using Cons.prems by (auto simp: less_Suc_eq)
  from Cons.IH[OF this] show ?case using Cons.prems by (simp add: update_fresh)
qed

lemma length_items_of: "length (items_of arr) = item_count arr"
  by (simp add: items_of_def item_count_def split: option.splits)

lemma table_ok_restore:
  assumes "table_ok c tbl"
  shows "table_ok (c + item_count arr)
           (fold (\<lambda>(i, item). AList.update i (f i item)) (enumerate c (items_of arr))
              (filter P tbl))"
proof -
  define items where "items = items_of arr"
  have n: "item_count arr = length items" by (simp add: items_def length_items_of)
  have ok: "table_ok c (filter P tbl)" using assms by (rule table_ok_filter)
  then have below: "\<forall>k \<in> set (map fst (filter P tbl)). k < c" by (rule table_ok_below)
  have keys: "map fst (map (\<lambda>(i, item). (i, f i item)) (enumerate c items)) = [c..<c + length items]"
    by (simp add: map_fst_enumerate[symmetric] case_prod_unfold del: map_fst_enumerate)
  show ?thesis
    unfolding items_def[symmetric] n fold_update_enumerate[OF below] table_ok_def
    using ok by (auto simp: keys table_ok_def sorted_wrt_append simp del: map_map)
qed

lemma remove_transactions_eq:
  "remove_transactions rs s =
     s\<lparr>transactions := filter (\<lambda>e. fst e \<notin> tx_id ` set rs) (transactions s)\<rparr>"
proof -
  have "remove_transactions rs s =
          s\<lparr>transactions := fold (\<lambda>r. AList.delete (tx_id r)) rs (transactions s)\<rparr>"
    unfolding remove_transactions_def by (induction rs arbitrary: s) auto
  then show ?thesis by (simp add: fold_delete_filter)
qed

lemma createTransaction_eq:
  "createTransaction now (item\<lparr>ti_userId := u\<rparr>) s =
     (transaction_row now u (currentTransactionId s) item,
      s\<lparr>currentTransactionId := Suc (currentTransactionId s),
        transactions := AList.update (currentTransactionId s) (transaction_row now u (currentTransactionId s) item) (transactions s)\<rparr>)"
  by (simp add: createTransaction_def transaction_row_def Let_def)

lemma restore_transactions_eq:
  "restore_transactions now u arr s =
     s\<lparr>currentTransactionId := currentTransactionId s + item_count arr,
       transactions := fold (\<lambda>(i, item). AList.update i (transaction_row now u i item))
                  (enumerate (currentTransactionId s) (items_of arr)) (transactions s)\<rparr>"
proof -
  have "fold (\<lambda>item s'. snd (createTransaction now (item\<lparr>ti_userId := u\<rparr>) s')) items s =
        s\<lparr>currentTransactionId := currentTransactionId s + length items,
          transactions := fold (\<lambda>(i, item). AList.update i (transaction_row now u i item))
                     (enumerate (currentTransactionId s) items) (transactions s)\<rparr>" for items
    by (induction items arbitrary: s) (simp_all add: createTransaction_eq)
  then show ?thesis
    by (cases arr) (simp_all add: restore_transactions_def item_count_def items_of_def)
qed

lemma remove_incomes_eq:
  "remove_incomes rs s =
     s\<lparr>incomes := filter (\<lambda>e. fst e \<notin> inc_id ` set rs) (incomes s)\<rparr>"
proof -
  have "remove_incomes rs s =
          s\<lparr>incomes := fold (\<lambda>r. AList.delete (inc_id r)) rs (incomes s)\<rparr>"
    unfolding remove_incomes_def by (induction rs arbitrary: s) auto
  then show ?thesis by (simp add: fold_delete_filter)
qed

lemma createIncome_eq:
  "createIncome now (item\<lparr>ii_userId := u\<rparr>) s =
     (income_row now u (currentIncomeId s) item,
      s\<lparr>currentIncomeId := Suc (currentIncomeId s),
        incomes := AList.update (currentIncomeId s) (income_row now u (currentIncomeId s) item) (incomes s)\<rparr>)"
  by (simp add: createIncome_def income_row_def Let_def)

lemma restore_incomes_eq:
  "restore_incomes now u arr s =
     s\<lparr>currentIncomeId := currentIncomeId s + item_count arr,
       incomes := fold (\<lambda>(i, item). AList.update i (income_row now u i item))
                  (enumerate (currentIncomeId s) (items_of arr)) (incomes s)\<rparr>"
proof -
  have "fold (\<lambda>item s'. snd (createIncome now (item\<lparr>ii_userId := u\<rparr>) s')) items s =
        s\<lparr>currentIncomeId := currentIncomeId s + length items,
          incomes := fold (\<lambda>(i, item). AList.update i (income_row now u i item))
                     (enumerate (currentIncomeId s) items) (incomes s)\<rparr>" for items
    by (induction items arbitrary: s) (simp_all add: createIncome_eq)
  then show ?thesis
    by (cases arr) (simp_all add: restore_incomes_def item_count_def items_of_def)
qed

lemma remove_budgets_eq:
  "remove_budgets rs s =
     s\<lparr>budgets := filter (\<lambda>e. fst e \<notin> bud_id ` set rs) (budgets s)\<rparr>"
proof -
  have "remove_budgets rs s =
          s\<lparr>budgets := fold (\<lambda>r. AList.delete (bud_id r)) rs (budgets s)\<rparr>"
    unfolding remove_budgets_def by (induction rs arbitrary: s) auto
  then show ?thesis by (simp add: fold_delete_filter)
qed

lemma createBudget_eq:
  "createBudget (item\<lparr>ib_userId := u\<rparr>) s =
     (budget_row u (currentBudgetId s) item,
      s\<lparr>currentBudgetId := Suc (currentBudgetId s),
        budgets := AList.update (currentBudgetId s) (budget_row u (currentBudgetId s) item) (budgets s)\<rparr>)"
  by (simp add: createBudget_def budget_row_def Let_def)

lemma restore_budgets_eq:
  "restore_budgets u arr s =
     s\<lparr>currentBudgetId := currentBudgetId s + item_count arr,
       budgets := fold (\<lambda>(i, item). AList.update i (budget_row u i item))
                  (enumerate (currentBudgetId s) (items_of arr)) (budgets s)\<rparr>"
proof -
  have "fold (\<lambda>item s'. snd (createBudget (item\<lparr>ib_userId := u\<rparr>) s')) items s =
        s\<lparr>currentBudgetId := currentBudgetId s + length items,
          budgets := fold (\<lambda>(i, item). AList.update i (budget_row u i item))
                     (enumerate (currentBudgetId s) items) (budgets s)\<rparr>" for items
    by (induction items arbitrary: s) (simp_all add: createBudget_eq)
  then show ?thesis
    by (cases arr) (simp_all add: restore_budgets_def item_count_def items_of_def)
qed

lemma remove_goals_eq:
  "remove_goals rs s =
     s\<lparr>goals := filter (\<lambda>e. fst e \<notin> goal_id ` set rs) (goals s)\<rparr>"
proof -
  have "remove_goals rs s =
          s\<lparr>goals := fold (\<lambda>r. AList.delete (goal_id r)) rs (goals s)\<rparr>"
    unfolding remove_goals_def by (induction rs arbitrary: s) auto
  then show ?thesis by (simp add: fold_delete_filter)
qed

lemma createGoal_eq:
  "createGoal (item\<lparr>ig_userId := u\<rparr>) s =
     (goal_row u (currentGoalId s) item,
      s\<lparr>currentGoalId := Suc (currentGoalId s),
        goals := AList.update (currentGoalId s) (goal_row u (currentGoalId s) item) (goals s)\<rparr>)"
  by (simp add: createGoal_def goal_row_def Let_def)

lemma restore_goals_eq:
  "restore_goals u arr s =
     s\<lparr>currentGoalId := currentGoalId s + item_count arr,
       goals := fold (\<lambda>(i, item). AList.update i (goal_row u i item))
                  (enumerate (currentGoalId s) (items_of arr)) (goals s)\<rparr>"
proof -
  have "fold (\<lambda>item s'. snd (createGoal (item\<lparr>ig_userId := u\<rparr>) s')) items s =
        s\<lparr>currentGoalId := currentGoalId s + length items,
          goals := fold (\<lambda>(i, item). AList.update i (goal_row u i item))
                     (enumerate (currentGoalId s) items) (goals s)\<rparr>" for items
    by (induction items arbitrary: s) (simp_all add: createGoal_eq)
  then show ?thesis
    by (cases arr) (simp_all add: restore_goals_def item_count_def items_of_def)
qed

lemma remove_categories_eq:
  "remove_categories rs s =
     s\<lparr>categories := filter (\<lambda>e. fst e \<notin> cat_id ` set rs) (categories s)\<rparr>"
proof -
  have "remove_categories rs s =
          s\<lparr>categories := fold (\<lambda>r. AList.delete (cat_id r)) rs (categories s)\<rparr>"
    unfolding remove_categories_def by (induction rs arbitrary: s) auto
  then show ?thesis by (simp add: fold_delete_filter)
qed

lemma createCategory_eq:
  "createCategory now (item\<lparr>ci_userId := u\<rparr>) s =
     (category_row now u (currentCategoryId s) item,
      s\<lparr>currentCategoryId := Suc (currentCategoryId s),
        categories := AList.update (currentCategoryId s) (category_row now u (currentCategoryId s) item) (categories s)\<rparr>)"
  by (simp add: createCategory_def category_row_def Let_def)

lemma restore_categories_eq:
  "restore_categories now u arr s =
     s\<lparr>currentCategoryId := currentCategoryId s + item_count arr,
       categories := fold (\<lambda>(i, item). AList.update i (category_row now u i item))
                  (enumerate (currentCategoryId s) (items_of arr)) (categories s)\<rparr>"
proof -
  have "fold (\<lambda>item s'. snd (createCategory now (item\<lparr>ci_userId := u\<rparr>) s')) items s =
        s\<lparr>currentCategoryId := currentCategoryId s + length items,
          categories := fold (\<lambda>(i, item). AList.update i (category_row now u i item))
                     (enumerate (currentCategoryId s) items) (categories s)\<rparr>" for items
    by (induction items arbitrary: s) (simp_all add: createCategory_eq)
  then show ?thesis
    by (cases arr) (simp_all add: restore_categories_def item_count_def items_of_def)
qed


lemma restoreBackup_eq:
  "restoreBackup now u d s =
     s\<lparr>transactions :=
         fold (\<lambda>(i, item). AList.update i (transaction_row now u i item))
           (enumerate (currentTransactionId s) (items_of (rd_transactions d)))
           (filter (\<lambda>e. fst e \<notin> tx_id ` set (getTransactions u s)) (transactions s)),
       incomes :=
         fold (\<lambda>(i, item). AList.update i (income_row now u i item))
           (enumerate (currentIncomeId s) (items_of (rd_incomes d)))
           (filter (\<lambda>e. fst e \<notin> inc_id ` set (getIncomes u s)) (incomes s)),
       budgets :=
         fold (\<lambda>(i, item). AList.update i (budget_row u i item))
           (enumerate (currentBudgetId s) (items_of (rd_budgets d)))
           (filter (\<lambda>e. fst e \<notin> bud_id ` set (getBudgets u s)) (budgets s)),
       goals :=
         fold (\<lambda>(i, item). AList.update i (goal_row u i item))
           (enumerate (currentGoalId s) (items_of (rd_goals d)))
           (filter (\<lambda>e. fst e \<notin> goal_id ` set (getGoals u s)) (goals s)),
       categories :=
         fold (\<lambda>(i, item). AList.update i (category_row now u i item))
           (enumerate (currentCategoryId s) (items_of (rd_categories d)))
           (filter (\<lambda>e. fst e \<notin> cat_id ` set (getCategories u s)) (categories s)),
       currentTransactionId := currentTransactionId s + item_count (rd_transactions d),
       currentIncomeId := currentIncomeId s + item_count (rd_incomes d),
       currentBudgetId := currentBudgetId s + item_count (rd_budgets d),
       currentGoalId := currentGoalId s + item_count (rd_goals d),
       currentCategoryId := currentCategoryId s + item_count (rd_categories d)\<rparr>"
  by (simp add: restoreBackup_def restore_transactions_eq restore_incomes_eq
      restore_budgets_eq restore_goals_eq restore_categories_eq remove_transactions_eq
      remove_incomes_eq remove_budgets_eq remove_goals_eq remove_categories_eq)

lemma string_or_idem: "string_or (Some (string_or x ''expense'')) ''expense'' = string_or x ''expense''"
  by (simp add: string_or_def split: option.splits)

lemma typed_update:
  "typed tbl \<Longrightarrow> cat_type v = Some (string_or (cat_type v) ''expense'') \<Longrightarrow>
   typed (AList.update k v tbl)"
  using set_update_subset[of k v tbl] by (auto simp: typed_def)

lemma typed_restore:
  "typed tbl \<Longrightarrow>
   typed (fold (\<lambda>(i, item). AList.update i (category_row now u i item)) (enumerate c items) tbl)"
proof (induction items arbitrary: c tbl)
  case Nil
  then show ?case by simp
next
  case (Cons x xs)
  have "typed (AList.update c (category_row now u c x) tbl)"
    using Cons.prems by (rule typed_update) (simp add: category_row_def string_or_idem)
  from Cons.IH[OF this] show ?case by simp
qed

lemma typed_filter: "typed tbl \<Longrightarrow> typed (filter P tbl)"
  by (simp add: typed_def)

lemma store_ok_restoreBackup: "store_ok s \<Longrightarrow> store_ok (restoreBackup now u d s)"
  by (simp add: store_ok_def restoreBackup_eq table_ok_restore typed_restore typed_filter)


lemma markAll_eq:
  "markAllNotificationsAsRead u s =
     s\<lparr>notifications :=
         fold (\<lambda>n tbl. if \<not> ntf_read n
                        then AList.update (ntf_id n) (n\<lparr>ntf_read := True\<rparr>) tbl else tbl)
           (getNotifications u s) (notifications s)\<rparr>"
proof -
  have "fold (\<lambda>notification s'.
             if \<not> ntf_read notification
             then s'\<lparr>notifications :=
                       AList.update (ntf_id notification) (notification\<lparr>ntf_read := True\<rparr>)
                         (notifications s')\<rparr>
             else s') ns s =
        s\<lparr>notifications :=
            fold (\<lambda>n tbl. if \<not> ntf_read n
                           then AList.update (ntf_id n) (n\<lparr>ntf_read := True\<rparr>) tbl else tbl)
              ns (notifications s)\<rparr>" for ns
    by (induction ns arbitrary: s) auto
  then show ?thesis by (simp add: markAllNotificationsAsRead_def)
qed

lemma mark_fold_keys:
  "\<forall>n \<in> set ns. ntf_id n \<in> fst ` set tbl \<Longrightarrow> keyed_by ntf_id tbl \<Longrightarrow>
   map fst (fold (\<lambda>n tbl. if \<not> ntf_read n
                        then AList.update (ntf_id n) (n\<lparr>ntf_read := True\<rparr>) tbl else tbl) ns tbl)
     = map fst tbl \<and>
   keyed_by ntf_id (fold (\<lambda>n tbl. if \<not> ntf_read n
                        then AList.update (ntf_id n) (n\<lparr>ntf_read := True\<rparr>) tbl else tbl) ns tbl)"
proof (induction ns arbitrary: tbl)
  case Nil
  then show ?case by simp
next
  case (Cons n ns)
  let ?t = "if \<not> ntf_read n then AList.update (ntf_id n) (n\<lparr>ntf_read := True\<rparr>) tbl else tbl"
  have k: "map fst ?t = map fst tbl" using Cons.prems(1) by (simp add: update_present_keys)
  have kb: "keyed_by ntf_id ?t" using Cons.prems(2) by (simp add: keyed_by_update)
  have "\<forall>n \<in> set ns. ntf_id n \<in> fst ` set ?t"
    using Cons.prems(1) k by (metis list.set_intros(2) set_map)
  from Cons.IH[OF this kb] k show ?case by simp
qed

lemma getNotifications_subset: "set (getNotifications u s) \<subseteq> snd ` set (notifications s)"
  by (auto simp: getNotifications_def)

lemma store_ok_markAll: "store_ok s \<Longrightarrow> store_ok (markAllNotificationsAsRead u s)"
proof -
  assume ok: "store_ok s"
  then have kb: "keyed_by ntf_id (notifications s)" by (simp add: store_ok_def)
  have "\<forall>n \<in> set (getNotifications u s). ntf_id n \<in> fst ` set (notifications s)"
    using getNotifications_subset[of u s] kb by (force simp: keyed_by_def)
  from mark_fold_keys[OF this kb] ok show ?thesis
    by (simp add: markAll_eq store_ok_def table_ok_def)
qed

lemma map_of_keyed: "keyed_by rid tbl \<Longrightarrow> map_of tbl k = Some v \<Longrightarrow> rid v = k"
proof -
  assume kb: "keyed_by rid tbl" and "map_of tbl k = Some v"
  then have "(k, v) \<in> set tbl" by (simp add: map_of_SomeD)
  with kb show ?thesis by (force simp: keyed_by_def)
qed

lemma store_ok_perform: "store_ok s \<Longrightarrow> store_ok (perform op s)"
proof (cases op)
  case (CreateUser now u)
  assume "store_ok s" then show ?thesis
    by (simp add: CreateUser store_ok_def createUser_def Let_def table_ok_fresh)
next
  case (CreateNotification now n)
  assume "store_ok s" then show ?thesis
    by (simp add: CreateNotification store_ok_def createNotification_def Let_def table_ok_fresh
        keyed_by_update)
next
  case (MarkNotificationAsRead i)
  assume "store_ok s" then show ?thesis
    by (auto simp: MarkNotificationAsRead store_ok_def markNotificationAsRead_def Let_def
        table_ok_present keyed_by_update map_of_keyed split: option.splits)
next
  case (MarkAllNotificationsAsRead u)
  assume "store_ok s" then show ?thesis
    by (simp add: MarkAllNotificationsAsRead store_ok_markAll)
next
  case (CreateTransaction now t)
  assume "store_ok s" then show ?thesis
    by (simp add: CreateTransaction store_ok_def createTransaction_def Let_def table_ok_fresh)
next
  case (UpdateTransaction i u)
  assume "store_ok s" then show ?thesis
    by (auto simp: UpdateTransaction store_ok_def updateTransaction_def Let_def
        table_ok_present split: option.splits)
next
  case (DeleteTransaction i)
  assume "store_ok s" then show ?thesis
    by (simp add: DeleteTransaction store_ok_def deleteTransaction_def table_ok_delete)
next
  case (CreateCategory now c)
  assume "store_ok s" then show ?thesis
    by (simp add: CreateCategory store_ok_def createCategory_def Let_def table_ok_fresh
        typed_update string_or_idem)
next
  case (CreateIncome now r)
  assume "store_ok s" then show ?thesis
    by (simp add: CreateIncome store_ok_def createIncome_def Let_def table_ok_fresh)
next
  case (UpdateIncome i u)
  assume "store_ok s" then show ?thesis
    by (auto simp: UpdateIncome store_ok_def updateIncome_def Let_def
        table_ok_present split: option.splits)
next
  case (DeleteIncome i)
  assume "store_ok s" then show ?thesis
    by (simp add: DeleteIncome store_ok_def deleteIncome_def table_ok_delete)
next
  case (CreateBudget b)
  assume "store_ok s" then show ?thesis
    by (simp add: CreateBudget store_ok_def createBudget_def Let_def table_ok_fresh)
next
  case (UpdateBudget i u)
  assume "store_ok s" then show ?thesis
    by (auto simp: UpdateBudget store_ok_def updateBudget_def Let_def
        table_ok_present split: option.splits)
next
  case (DeleteBudget i)
  assume "store_ok s" then show ?thesis
    by (simp add: DeleteBudget store_ok_def deleteBudget_def table_ok_delete)
next
  case (CreateGoal g)
  assume "store_ok s" then show ?thesis
    by (simp add: CreateGoal store_ok_def createGoal_def Let_def table_ok_fresh)
next
  case (UpdateGoal i u)
  assume "store_ok s" then show ?thesis
    by (auto simp: UpdateGoal store_ok_def updateGoal_def Let_def
        table_ok_present split: option.splits)
next
  case (DeleteGoal i)
  assume "store_ok s" then show ?thesis
    by (simp add: DeleteGoal store_ok_def deleteGoal_def table_ok_delete)
next
  case (RestoreBackup now u d)
  assume "store_ok s" then show ?thesis
    by (simp add: RestoreBackup store_ok_restoreBackup)
qed

lemma run_snoc: "run (ops @ [op]) = perform op (run ops)"
  by (simp add: run_def)

lemma store_ok_run: "store_ok (run ops)"
proof (induction ops rule: rev_induct)
  case Nil
  then show ?case by (simp add: run_def store_ok_MemStorage_new)
next
  case (snoc op ops)
  then show ?case by (simp add: run_snoc store_ok_perform)
qed

section \<open>Partial updates of a missing id\<close>

lemma absent_key: "k \<notin> fst ` set tbl \<Longrightarrow> map_of tbl k = None"
  by (simp add: map_of_eq_None_iff)

text \<open>
  C9. When \<open>i\<close> is not a key of the map concerned, each of \<open>updateTransaction\<close>,
  \<open>updateIncome\<close>, \<open>updateBudget\<close> and \<open>updateGoal\<close> returns \<open>undefined\<close> (here \<open>None\<close>)
  and hands back the store it was given, whatever the update object holds.
\<close>

theorem update_of_missing_id:
  "(i \<notin> fst ` set (transactions s) \<longrightarrow> updateTransaction i tu s = (None, s)) \<and>
   (i \<notin> fst ` set (incomes s) \<longrightarrow> updateIncome i iu s = (None, s)) \<and>
   (i \<notin> fst ` set (budgets s) \<longrightarrow> updateBudget i bu s = (None, s)) \<and>
   (i \<notin> fst ` set (goals s) \<longrightarrow> updateGoal i gu s = (None, s))"
  by (simp add: updateTransaction_def updateIncome_def updateBudget_def updateGoal_def
      absent_key)

lemma demo_value:
  "demo =
     \<lparr>users = [], notifications = [],
      transactions =
        [(1, transaction_row 0 1 1 (expense 1 ''food'' 50 10)),
         (2, transaction_row 0 2 2 (expense 2 ''rent'' 700 11)),
         (3, transaction_row 0 1 3 (expense 1 ''food'' 30 12)),
         (4, transaction_row 0 1 4 (expense 1 ''transport'' 20 11))],
      categories = [(1, category_row 3 1 1 (category_item 1 ''food''))],
      incomes = [(1, income_row 0 1 1 (income_item 1 ''salary'' 2000 5))],
      budgets = [(1, budget_row 1 1 (budget_item 1 ''food'' 300)),
                 (2, budget_row 2 2 (budget_item 2 ''rent'' 800))],
      goals = [(1, goal_row 1 1 (goal_item 1 ''bike'' 900))],
      currentUserId = 1, currentNotificationId = 1, currentTransactionId = 5,
      currentCategoryId = 2, currentIncomeId = 2, currentBudgetId = 3, currentGoalId = 2\<rparr>"
  by code_simp

theorem update_of_missing_id_witness:
  "7 \<notin> fst ` set (transactions demo) \<and>
   updateTransaction 7 (no_change\<lparr>pt_id := Some 1, pt_amount := Some 5\<rparr>) demo = (None, demo) \<and>
   7 \<notin> fst ` set (incomes demo) \<and>
   updateIncome 7 (no_change_income\<lparr>pi_amount := Some 5\<rparr>) demo = (None, demo) \<and>
   7 \<notin> fst ` set (budgets demo) \<and>
   updateBudget 7 (no_change_budget\<lparr>pb_amount := Some 5\<rparr>) demo = (None, demo) \<and>
   7 \<notin> fst ` set (goals demo) \<and>
   updateGoal 7 (no_change_goal\<lparr>pg_name := Some ''car''\<rparr>) demo = (None, demo)"
proof -
  have h: "7 \<notin> fst ` set (transactions demo)" "7 \<notin> fst ` set (incomes demo)"
    "7 \<notin> fst ` set (budgets demo)" "7 \<notin> fst ` set (goals demo)"
    by (simp_all add: demo_value)
  show ?thesis
    using h update_of_missing_id[of 7 demo "no_change\<lparr>pt_id := Some 1, pt_amount := Some 5\<rparr>"
        "no_change_income\<lparr>pi_amount := Some 5\<rparr>" "no_change_budget\<lparr>pb_amount := Some 5\<rparr>"
        "no_change_goal\<lparr>pg_name := Some ''car''\<rparr>"]
    by blast
qed

section \<open>Accumulating amounts by category\<close>

lemma number_or_zero: "number_or x 0 = (case x of None \<Rightarrow> 0 | Some v \<Rightarrow> v)"
  by (simp add: number_or_def split: option.splits)

lemma accumulate_eq:
  "accumulate t (m, tot) =
     (AList.update (tx_category t) (lookup0 m (tx_category t) + tx_amount t) m,
      tot + tx_amount t)"
  by (simp add: accumulate_def lookup0_def number_or_zero Let_def)

lemma sum_update:
  "distinct (map fst m) \<Longrightarrow>
   sum_list (map snd (AList.update k (lookup0 m k + a) m)) = sum_list (map snd m) + a"
proof (induction m)
  case Nil
  then show ?case by (simp add: lookup0_def)
next
  case (Cons e m)
  obtain k' v' where e: "e = (k', v')" by (cases e)
  show ?case
  proof (cases "k' = k")
    case True
    then show ?thesis by (simp add: e lookup0_def)
  next
    case False
    have "lookup0 (e # m) k = lookup0 m k" using False by (simp add: e lookup0_def)
    with Cons False show ?thesis by (simp add: e)
  qed
qed

lemma lookup0_update:
  "lookup0 (AList.update k v m) c = (if c = k then v else lookup0 m c)"
  by (simp add: lookup0_def update_conv')

lemma fold_accumulate:
  "distinct (map fst m) \<Longrightarrow>
   distinct (map fst (fst (fold accumulate ts (m, tot)))) \<and>
   set (map fst (fst (fold accumulate ts (m, tot)))) = set (map fst m) \<union> tx_category ` set ts \<and>
   snd (fold accumulate ts (m, tot)) = tot + sum_list (map tx_amount ts) \<and>
   sum_list (map snd (fst (fold accumulate ts (m, tot)))) =
     sum_list (map snd m) + sum_list (map tx_amount ts) \<and>
   (\<forall>c. lookup0 (fst (fold accumulate ts (m, tot))) c =
        lookup0 m c + sum_list (map tx_amount (filter (\<lambda>t. tx_category t = c) ts)))"
proof (induction ts arbitrary: m tot)
  case Nil
  then show ?case by simp
next
  case (Cons t ts)
  let ?m = "AList.update (tx_category t) (lookup0 m (tx_category t) + tx_amount t) m"
  have d: "distinct (map fst ?m)" using Cons.prems by (simp add: distinct_update)
  have k: "set (map fst ?m) = insert (tx_category t) (set (map fst m))"
    using dom_update[of "tx_category t" _ m] by simp
  have su: "sum_list (map snd ?m) = sum_list (map snd m) + tx_amount t"
    using Cons.prems by (rule sum_update)
  have st: "fold accumulate (t # ts) (m, tot) = fold accumulate ts (?m, tot + tx_amount t)"
    by (simp add: accumulate_eq)
  note ih = Cons.IH[OF d, of "tot + tx_amount t"]
  have c1: "distinct (map fst (fst (fold accumulate (t # ts) (m, tot))))"
    using ih unfolding st by blast
  have c2: "set (map fst (fst (fold accumulate (t # ts) (m, tot)))) =
            set (map fst m) \<union> tx_category ` set (t # ts)"
    using ih unfolding st k by auto
  have c3: "snd (fold accumulate (t # ts) (m, tot)) = tot + sum_list (map tx_amount (t # ts))"
    using ih unfolding st by simp
  have c4: "sum_list (map snd (fst (fold accumulate (t # ts) (m, tot)))) =
            sum_list (map snd m) + sum_list (map tx_amount (t # ts))"
    using ih unfolding st su by simp
  have c5: "lookup0 (fst (fold accumulate (t # ts) (m, tot))) c =
            lookup0 m c + sum_list (map tx_amount (filter (\<lambda>t. tx_category t = c) (t # ts)))"
    for c
  proof -
    have "lookup0 (fst (fold accumulate ts (?m, tot + tx_amount t))) c =
          lookup0 ?m c + sum_list (map tx_amount (filter (\<lambda>t. tx_category t = c) ts))"
      using ih by blast
    then show ?thesis unfolding st by (simp add: lookup0_update)
  qed
  from c1 c2 c3 c4 c5 show ?case by blast
qed

section \<open>Spending by category: the category map\<close>

lemma sum_list_mset_cong:
  fixes f :: "'a \<Rightarrow> 'b::comm_monoid_add"
  assumes "mset xs = mset ys"
  shows "sum_list (map f xs) = sum_list (map f ys)"
proof -
  have "mset (map f xs) = mset (map f ys)" using assms by simp
  then have "sum_mset (mset (map f xs)) = sum_mset (mset (map f ys))" by (rule arg_cong)
  then show ?thesis by (simp only: sum_mset_sum_list)
qed

lemma expense_list_mset:
  "mset (filter (\<lambda>t. tx_type t = ''expense'') (getTransactions u s)) = mset (expenses u s)"
  by (simp add: getTransactions_def expenses_def filter_filter_mset)






lemma category_acc_total: "snd (category_acc u s) = sum_list (map tx_amount (expenses u s))"
proof -
  have "snd (category_acc u s) =
     sum_list (map tx_amount (filter (\<lambda>t. tx_type t = ''expense'') (getTransactions u s)))"
    using fold_accumulate[of "[]" "filter (\<lambda>t. tx_type t = ''expense'') (getTransactions u s)" 0]
    unfolding category_acc_def by simp
  also have "\<dots> = sum_list (map tx_amount (expenses u s))"
    using expense_list_mset by (rule sum_list_mset_cong)
  finally show ?thesis .
qed

lemma category_acc_sum:
  "sum_list (map snd (fst (category_acc u s))) = sum_list (map tx_amount (expenses u s))"
proof -
  have "sum_list (map snd (fst (category_acc u s))) =
     sum_list (map tx_amount (filter (\<lambda>t. tx_type t = ''expense'') (getTransactions u s)))"
    using fold_accumulate[of "[]" "filter (\<lambda>t. tx_type t = ''expense'') (getTransactions u s)" 0]
    unfolding category_acc_def by simp
  also have "\<dots> = sum_list (map tx_amount (expenses u s))"
    using expense_list_mset by (rule sum_list_mset_cong)
  finally show ?thesis .
qed


section \<open>Spending by category: the result\<close>

lemma sorted_descending:
  fixes f :: "'a \<Rightarrow> 'b::linordered_idom"
  shows "sorted (map (\<lambda>x. - f x) xs) = sorted_wrt (\<lambda>a b. f b \<le> f a) xs"
  by (simp add: sorted_map)





lemma demo_expenses:
  "expenses 1 demo =
     [transaction_row 0 1 1 (expense 1 ''food'' 50 10),
      transaction_row 0 1 3 (expense 1 ''food'' 30 12),
      transaction_row 0 1 4 (expense 1 ''transport'' 20 11)]"
  by code_simp








section \<open>The sum of the percentages\<close>









section \<open>Backup\<close>

lemma stable_descending:
  fixes f :: "'a \<Rightarrow> int"
  shows "filter (\<lambda>x. f x = d) (sort_key (\<lambda>x. - f x) xs) = filter (\<lambda>x. f x = d) xs"
  using sort_key_stable[of "\<lambda>x. - f x" "- d" xs] by simp

text \<open>
  C5, as the code has it. \<open>createBackup\<close> returns five arrays, each holding exactly the
  rows of its table whose \<open>userId\<close> is the user's. The budgets, goals and categories
  come in the iteration order of their maps. The transactions and the incomes do not:
  they are sorted by date, latest first, and rows of equal date keep the order of the
  map.
\<close>

theorem backup_contents:
  "bk_budgets (createBackup u s) = filter (\<lambda>b. bud_userId b = u) (map snd (budgets s)) \<and>
   bk_goals (createBackup u s) = filter (\<lambda>g. goal_userId g = u) (map snd (goals s)) \<and>
   bk_categories (createBackup u s) =
     filter (\<lambda>c. cat_userId c = u) (map snd (categories s)) \<and>
   mset (bk_transactions (createBackup u s)) =
     mset (filter (\<lambda>t. tx_userId t = u) (map snd (transactions s))) \<and>
   sorted_wrt (\<lambda>a b. tx_date b \<le> tx_date a) (bk_transactions (createBackup u s)) \<and>
   (\<forall>d. filter (\<lambda>t. tx_date t = d) (bk_transactions (createBackup u s)) =
        filter (\<lambda>t. tx_date t = d)
          (filter (\<lambda>t. tx_userId t = u) (map snd (transactions s)))) \<and>
   mset (bk_incomes (createBackup u s)) =
     mset (filter (\<lambda>r. inc_userId r = u) (map snd (incomes s))) \<and>
   sorted_wrt (\<lambda>a b. inc_date b \<le> inc_date a) (bk_incomes (createBackup u s)) \<and>
   (\<forall>d. filter (\<lambda>r. inc_date r = d) (bk_incomes (createBackup u s)) =
        filter (\<lambda>r. inc_date r = d)
          (filter (\<lambda>r. inc_userId r = u) (map snd (incomes s))))"
proof (intro conjI allI)
  show "sorted_wrt (\<lambda>a b. tx_date b \<le> tx_date a) (bk_transactions (createBackup u s))"
    unfolding sorted_descending[symmetric] by (simp add: createBackup_def getTransactions_def)
  show "sorted_wrt (\<lambda>a b. inc_date b \<le> inc_date a) (bk_incomes (createBackup u s))"
    unfolding sorted_descending[symmetric] by (simp add: createBackup_def getIncomes_def)
qed (simp_all add: createBackup_def getTransactions_def getIncomes_def getBudgets_def
      getGoals_def getCategories_def stable_descending)

theorem backup_contents_counterexample:
  "bk_transactions (createBackup 1 demo) \<noteq>
     filter (\<lambda>t. tx_userId t = 1) (map snd (transactions demo))"
  by code_simp

section \<open>The code at four failing inputs\<close>

text \<open>
  C4 at a failing input. One expense of 5 in the category \<open>__proto__\<close>: the report's
  total is 5 and its \<open>byCategory\<close> holds nothing, so its values sum to 0.
\<close>

theorem report_of_proto_category:
  "getSpendingReport 1 proto = \<lparr>sr_total = 5, sr_byCategory = []\<rparr> \<and>
   sum_list (number_values (sr_byCategory (getSpendingReport 1 proto))) = 0"
  by code_simp

text \<open>
  C8 at a failing input. After two creations and \<open>updateTransaction(1, {id: 2})\<close> the map
  holds the keys 1 and 2, and both rows carry the \<open>id\<close> 2.
\<close>

theorem update_duplicates_id:
  "map fst (transactions clash) = [1, 2] \<and>
   map (\<lambda>e. tx_id (snd e)) (transactions clash) = [2, 2] \<and>
   \<not> distinct (map (\<lambda>e. tx_id (snd e)) (transactions clash))"
  by code_simp

text \<open>
  C2 at a failing input. The user's only transaction sits under key 1 and carries the
  \<open>id\<close> 7; a restore without a \<open>transactions\<close> key deletes key 7 and leaves the row.
\<close>

theorem restore_leaves_patched_row:
  "rd_transactions no_keys = None \<and>
   map tx_id (getTransactions 1 stale) = [7] \<and>
   map fst (transactions (restoreBackup 0 1 no_keys stale)) = [1] \<and>
   getTransactions 1 (restoreBackup 0 1 no_keys stale) = getTransactions 1 stale"
  by code_simp

text \<open>
  C10 at a failing input. User 1 restores; the transaction of user 2 under key 2 is
  deleted, because the row of user 1 carries the \<open>id\<close> 2.
\<close>

theorem restore_deletes_foreign_row:
  "map tx_id (getTransactions 2 clash) = [2] \<and>
   getTransactions 2 (restoreBackup 0 1 no_keys clash) = []"
  by code_simp

section \<open>What a restore does to a table\<close>

lemma restored_table:
  assumes "table_ok c T"
  shows "fold (\<lambda>(i, item). AList.update i (f i item)) (enumerate c items) (filter P T) =
         filter P T @ map (\<lambda>(i, item). (i, f i item)) (enumerate c items)"
  using assms by (intro fold_update_enumerate table_ok_below table_ok_filter)

lemma new_keys:
  "map fst (map (\<lambda>(i, item). (i, f i item)) (enumerate c items)) = [c..<c + length items]"
  by (simp add: map_fst_enumerate[symmetric] case_prod_unfold del: map_fst_enumerate)

lemma new_entry:
  "e \<in> set (map (\<lambda>(i, item). (i, f i item)) (enumerate c items)) \<Longrightarrow>
   c \<le> fst e \<and> (\<exists>item. snd e = f (fst e) item)"
  by (auto simp: in_set_enumerate_eq)

lemma filter_keeps_left:
  "\<forall>x \<in> set xs. Q x \<Longrightarrow> \<forall>y \<in> set ys. \<not> Q y \<Longrightarrow> filter Q (xs @ ys) = xs"
  by (simp add: filter_id_conv filter_empty_conv)

lemma filter_keeps_right:
  "\<forall>x \<in> set xs. \<not> Q x \<Longrightarrow> \<forall>y \<in> set ys. Q y \<Longrightarrow> filter Q (xs @ ys) = ys"
  by (simp add: filter_id_conv filter_empty_conv)

lemma fresh_rows_restore:
  assumes ok: "table_ok c T"
    and f: "\<And>i item. rid (f i item) = i \<and> owner (f i item) = u"
  shows "fresh_rows rid owner u c (item_count arr) T
           (fold (\<lambda>(i, item). AList.update i (f i item)) (enumerate c (items_of arr))
              (filter P T))"
proof -
  let ?new = "map (\<lambda>(i, item). (i, f i item)) (enumerate c (items_of arr))"
  have old: "\<forall>e \<in> set T. fst e < c" using table_ok_below[OF ok] by simp
  have new: "\<forall>e \<in> set ?new. c \<le> fst e" using new_entry[of _ f c "items_of arr"] by blast
  have below: "filter (\<lambda>e. fst e < c) (filter P T @ ?new) = filter P T"
    using old new by (intro filter_keeps_left) (auto simp: not_less)
  have above: "filter (\<lambda>e. c \<le> fst e) (filter P T @ ?new) = ?new"
    using old new by (intro filter_keeps_right) (auto simp: not_le)
  have rows: "rid (snd e) = fst e \<and> owner (snd e) = u"
    if "e \<in> set (filter P T @ ?new)" "c \<le> fst e" for e
  proof -
    from that old have "e \<in> set ?new" by auto
    then obtain item where "snd e = f (fst e) item" using new_entry by blast
    then show ?thesis using f by simp
  qed
  show ?thesis
    unfolding fresh_rows_def restored_table[OF ok] below above
    using old rows by (auto simp: new_keys length_items_of simp del: map_map)
qed

section \<open>The rows a restore inserts\<close>

text \<open>
  C7. In every store reached from the empty one, whatever the payload, the rows that
  \<open>restoreBackup(userId, data)\<close> inserts into each of the five tables are the entries
  from the table's counter on: one for each item of the payload, under the successive
  values of the counter, which are keys the table never held. Each such row carries its
  key as \<open>id\<close> and the caller's \<open>userId\<close>, whatever \<open>id\<close> and \<open>userId\<close> the item held.
\<close>

theorem restore_inserts_fresh_rows:
  "fresh_rows tx_id tx_userId u (currentTransactionId (run ops))
     (item_count (rd_transactions d)) (transactions (run ops))
     (transactions (restoreBackup now u d (run ops))) \<and>
   fresh_rows inc_id inc_userId u (currentIncomeId (run ops))
     (item_count (rd_incomes d)) (incomes (run ops))
     (incomes (restoreBackup now u d (run ops))) \<and>
   fresh_rows bud_id bud_userId u (currentBudgetId (run ops))
     (item_count (rd_budgets d)) (budgets (run ops))
     (budgets (restoreBackup now u d (run ops))) \<and>
   fresh_rows goal_id goal_userId u (currentGoalId (run ops))
     (item_count (rd_goals d)) (goals (run ops))
     (goals (restoreBackup now u d (run ops))) \<and>
   fresh_rows cat_id cat_userId u (currentCategoryId (run ops))
     (item_count (rd_categories d)) (categories (run ops))
     (categories (restoreBackup now u d (run ops)))"
proof -
  have ok: "store_ok (run ops)" by (rule store_ok_run)
  have t: "table_ok (currentTransactionId (run ops)) (transactions (run ops))"
    and i: "table_ok (currentIncomeId (run ops)) (incomes (run ops))"
    and b: "table_ok (currentBudgetId (run ops)) (budgets (run ops))"
    and g: "table_ok (currentGoalId (run ops)) (goals (run ops))"
    and c: "table_ok (currentCategoryId (run ops)) (categories (run ops))"
    using ok by (simp_all add: store_ok_def)
  show ?thesis
    unfolding restoreBackup_eq
    by (simp add: fresh_rows_restore[OF t] fresh_rows_restore[OF i] fresh_rows_restore[OF b]
        fresh_rows_restore[OF g] fresh_rows_restore[OF c] transaction_row_def income_row_def
        budget_row_def goal_row_def category_row_def)
qed

lemma sample_restored:
  "transactions (restoreBackup 0 1 sample (run demo_ops)) =
     [(2, transaction_row 0 2 2 (expense 2 ''rent'' 700 11)),
      (5, transaction_row 0 1 5 (expense 42 ''books'' 12 20)),
      (6, transaction_row 0 1 6 (expense 43 ''food'' 8 21))]"
  by code_simp

lemma demo_counter: "currentTransactionId (run demo_ops) = 5"
  by code_simp

theorem restore_inserts_fresh_rows_witness:
  "(6, transaction_row 0 1 6 (expense 43 ''food'' 8 21))
     \<in> set (transactions (restoreBackup 0 1 sample (run demo_ops))) \<and>
   currentTransactionId (run demo_ops) \<le> 6 \<and>
   ti_id ((expense 43 ''food'' 8 21)\<lparr>ti_id := Some 99\<rparr>) = Some 99 \<and>
   ti_userId ((expense 43 ''food'' 8 21)\<lparr>ti_id := Some 99\<rparr>) = 43 \<and>
   tx_id (transaction_row 0 1 6 (expense 43 ''food'' 8 21)) = 6 \<and>
   tx_userId (transaction_row 0 1 6 (expense 43 ''food'' 8 21)) = 1 \<and>
   map fst (filter (\<lambda>e. currentTransactionId (run demo_ops) \<le> fst e)
              (transactions (restoreBackup 0 1 sample (run demo_ops)))) = [5, 6]"
proof -
  let ?e = "(6::nat, transaction_row 0 1 6 (expense 43 ''food'' 8 21))"
  note r = restore_inserts_fresh_rows[of 1 demo_ops sample 0, THEN conjunct1,
      unfolded fresh_rows_def]
  have mem: "?e \<in> set (transactions (restoreBackup 0 1 sample (run demo_ops)))"
    unfolding sample_restored by simp
  have le: "currentTransactionId (run demo_ops) \<le> fst ?e" unfolding demo_counter by simp
  have n: "item_count (rd_transactions sample) = 2" by code_simp
  from r mem le have "tx_id (snd ?e) = fst ?e \<and> tx_userId (snd ?e) = 1" by blast
  moreover from r have "map fst (filter (\<lambda>e. currentTransactionId (run demo_ops) \<le> fst e)
              (transactions (restoreBackup 0 1 sample (run demo_ops)))) =
            [currentTransactionId (run demo_ops) ..<
               currentTransactionId (run demo_ops) + item_count (rd_transactions sample)]"
    by blast
  moreover have "[5 ..< 5 + 2] = [5::nat, 6]" by code_simp
  ultimately show ?thesis using mem le unfolding demo_counter n by (simp add: expense_def)
qed

section \<open>The rows of each user after a restore\<close>

lemma delete_owned:
  assumes ok: "table_ok c T" and keyed: "keyed_by rid T"
    and R: "set R = {r \<in> snd ` set T. owner r = u}"
  shows "filter (\<lambda>e. fst e \<notin> rid ` set R) T = filter (\<lambda>e. owner (snd e) \<noteq> u) T"
proof (rule filter_cong[OF refl])
  fix e assume e: "e \<in> set T"
  have d: "distinct (map fst T)" using ok by (rule table_ok_distinct)
  have "fst e \<in> rid ` set R \<longleftrightarrow> owner (snd e) = u"
  proof
    assume "fst e \<in> rid ` set R"
    then obtain r where r: "r \<in> set R" "fst e = rid r" by blast
    then obtain k where k: "(k, r) \<in> set T" and own: "owner r = u" using R by auto
    from keyed k have "rid r = k" by (force simp: keyed_by_def)
    with r k have "(fst e, r) \<in> set T" by simp
    moreover have "(fst e, snd e) \<in> set T" using e by simp
    ultimately have "r = snd e" using d by (rule eq_key_imp_eq_value[rotated])
    with own show "owner (snd e) = u" by simp
  next
    assume "owner (snd e) = u"
    then have "snd e \<in> set R" using e R by force
    moreover have "rid (snd e) = fst e" using keyed e by (simp add: keyed_by_def)
    ultimately show "fst e \<in> rid ` set R" by force
  qed
  then show "(fst e \<notin> rid ` set R) = (owner (snd e) \<noteq> u)" by simp
qed

lemma rows_of_enumerate:
  "map snd (map (\<lambda>(i, item). (i, f i item)) (enumerate c items)) =
   map (\<lambda>(i, item). f i item) (enumerate c items)"
  by (simp add: case_prod_unfold)

lemma owned_after_restore:
  assumes ok: "table_ok c T" and keyed: "keyed_by rid T"
    and R: "set R = {r \<in> snd ` set T. owner r = u}"
    and own: "\<And>i item. owner (f i item) = u"
  shows "filter (\<lambda>r. owner r = v)
           (map snd (fold (\<lambda>(i, item). AList.update i (f i item)) (enumerate c items)
                       (filter (\<lambda>e. fst e \<notin> rid ` set R) T))) =
         (if v = u then map (\<lambda>(i, item). f i item) (enumerate c items)
          else filter (\<lambda>r. owner r = v) (map snd T))"
proof -
  let ?new = "map (\<lambda>(i, item). f i item) (enumerate c items)"
  have new: "\<forall>r \<in> set ?new. owner r = u" using own by auto
  have tbl: "map snd (fold (\<lambda>(i, item). AList.update i (f i item)) (enumerate c items)
                       (filter (\<lambda>e. fst e \<notin> rid ` set R) T)) =
             map snd (filter (\<lambda>e. owner (snd e) \<noteq> u) T) @ ?new"
    unfolding restored_table[OF ok] delete_owned[OF ok keyed R]
    by (simp add: rows_of_enumerate del: map_map)
  have old: "map snd (filter (\<lambda>e. owner (snd e) \<noteq> u) T) = filter (\<lambda>r. owner r \<noteq> u) (map snd T)"
    by (simp add: filter_map comp_def)
  show ?thesis
  proof (cases "v = u")
    case True
    have "filter (\<lambda>r. owner r = u) (filter (\<lambda>r. owner r \<noteq> u) (map snd T) @ ?new) = ?new"
      using new by (intro filter_keeps_right) auto
    then show ?thesis unfolding tbl old using True by simp
  next
    case False
    have "filter (\<lambda>r. owner r = v) (filter (\<lambda>r. owner r \<noteq> u) (map snd T) @ ?new) =
          filter (\<lambda>r. owner r = v) (filter (\<lambda>r. owner r \<noteq> u) (map snd T))"
      using new False by (simp add: filter_empty_conv)
    also have "\<dots> = filter (\<lambda>r. owner r = v) (map snd T)"
      using False by (auto intro: filter_cong)
    finally show ?thesis unfolding tbl old using False by simp
  qed
qed

lemma rows_forget_key:
  "(\<And>i item. g (f i item) = h item) \<Longrightarrow>
   map g (map (\<lambda>(i, item). f i item) (enumerate c items)) = map h items"
  by (induction items arbitrary: c) simp_all

lemma getTransactions_set:
  "set (getTransactions u s) = {r \<in> snd ` set (transactions s). tx_userId r = u}"
  by (auto simp: getTransactions_def)

lemma transactions_after_restore:
  assumes "store_ok s" and "ids_match s"
  shows "filter (\<lambda>r. tx_userId r = v) (map snd (transactions (restoreBackup now u d s))) =
         (if v = u
          then map (\<lambda>(i, item). transaction_row now u i item)
                 (enumerate (currentTransactionId s) (items_of (rd_transactions d)))
          else filter (\<lambda>r. tx_userId r = v) (map snd (transactions s)))"
proof -
  have ok: "table_ok (currentTransactionId s) (transactions s)" using assms(1) by (simp add: store_ok_def)
  have keyed: "keyed_by tx_id (transactions s)" using assms(2) by (simp add: ids_match_def)
  have tbl: "transactions (restoreBackup now u d s) =
      fold (\<lambda>(i, item). AList.update i (transaction_row now u i item))
        (enumerate (currentTransactionId s) (items_of (rd_transactions d)))
        (filter (\<lambda>e. fst e \<notin> tx_id ` set (getTransactions u s)) (transactions s))"
    by (simp add: restoreBackup_eq)
  show ?thesis
    unfolding tbl
    by (rule owned_after_restore[OF ok keyed getTransactions_set]) (simp add: transaction_row_def)
qed

lemma getIncomes_set:
  "set (getIncomes u s) = {r \<in> snd ` set (incomes s). inc_userId r = u}"
  by (auto simp: getIncomes_def)

lemma incomes_after_restore:
  assumes "store_ok s" and "ids_match s"
  shows "filter (\<lambda>r. inc_userId r = v) (map snd (incomes (restoreBackup now u d s))) =
         (if v = u
          then map (\<lambda>(i, item). income_row now u i item)
                 (enumerate (currentIncomeId s) (items_of (rd_incomes d)))
          else filter (\<lambda>r. inc_userId r = v) (map snd (incomes s)))"
proof -
  have ok: "table_ok (currentIncomeId s) (incomes s)" using assms(1) by (simp add: store_ok_def)
  have keyed: "keyed_by inc_id (incomes s)" using assms(2) by (simp add: ids_match_def)
  have tbl: "incomes (restoreBackup now u d s) =
      fold (\<lambda>(i, item). AList.update i (income_row now u i item))
        (enumerate (currentIncomeId s) (items_of (rd_incomes d)))
        (filter (\<lambda>e. fst e \<notin> inc_id ` set (getIncomes u s)) (incomes s))"
    by (simp add: restoreBackup_eq)
  show ?thesis
    unfolding tbl
    by (rule owned_after_restore[OF ok keyed getIncomes_set]) (simp add: income_row_def)
qed

lemma getBudgets_set:
  "set (getBudgets u s) = {r \<in> snd ` set (budgets s). bud_userId r = u}"
  by (auto simp: getBudgets_def)

lemma budgets_after_restore:
  assumes "store_ok s" and "ids_match s"
  shows "filter (\<lambda>r. bud_userId r = v) (map snd (budgets (restoreBackup now u d s))) =
         (if v = u
          then map (\<lambda>(i, item). budget_row u i item)
                 (enumerate (currentBudgetId s) (items_of (rd_budgets d)))
          else filter (\<lambda>r. bud_userId r = v) (map snd (budgets s)))"
proof -
  have ok: "table_ok (currentBudgetId s) (budgets s)" using assms(1) by (simp add: store_ok_def)
  have keyed: "keyed_by bud_id (budgets s)" using assms(2) by (simp add: ids_match_def)
  have tbl: "budgets (restoreBackup now u d s) =
      fold (\<lambda>(i, item). AList.update i (budget_row u i item))
        (enumerate (currentBudgetId s) (items_of (rd_budgets d)))
        (filter (\<lambda>e. fst e \<notin> bud_id ` set (getBudgets u s)) (budgets s))"
    by (simp add: restoreBackup_eq)
  show ?thesis
    unfolding tbl
    by (rule owned_after_restore[OF ok keyed getBudgets_set]) (simp add: budget_row_def)
qed

lemma getGoals_set:
  "set (getGoals u s) = {r \<in> snd ` set (goals s). goal_userId r = u}"
  by (auto simp: getGoals_def)

lemma goals_after_restore:
  assumes "store_ok s" and "ids_match s"
  shows "filter (\<lambda>r. goal_userId r = v) (map snd (goals (restoreBackup now u d s))) =
         (if v = u
          then map (\<lambda>(i, item). goal_row u i item)
                 (enumerate (currentGoalId s) (items_of (rd_goals d)))
          else filter (\<lambda>r. goal_userId r = v) (map snd (goals s)))"
proof -
  have ok: "table_ok (currentGoalId s) (goals s)" using assms(1) by (simp add: store_ok_def)
  have keyed: "keyed_by goal_id (goals s)" using assms(2) by (simp add: ids_match_def)
  have tbl: "goals (restoreBackup now u d s) =
      fold (\<lambda>(i, item). AList.update i (goal_row u i item))
        (enumerate (currentGoalId s) (items_of (rd_goals d)))
        (filter (\<lambda>e. fst e \<notin> goal_id ` set (getGoals u s)) (goals s))"
    by (simp add: restoreBackup_eq)
  show ?thesis
    unfolding tbl
    by (rule owned_after_restore[OF ok keyed getGoals_set]) (simp add: goal_row_def)
qed

lemma getCategories_set:
  "set (getCategories u s) = {r \<in> snd ` set (categories s). cat_userId r = u}"
  by (auto simp: getCategories_def)

lemma categories_after_restore:
  assumes "store_ok s" and "ids_match s"
  shows "filter (\<lambda>r. cat_userId r = v) (map snd (categories (restoreBackup now u d s))) =
         (if v = u
          then map (\<lambda>(i, item). category_row now u i item)
                 (enumerate (currentCategoryId s) (items_of (rd_categories d)))
          else filter (\<lambda>r. cat_userId r = v) (map snd (categories s)))"
proof -
  have ok: "table_ok (currentCategoryId s) (categories s)" using assms(1) by (simp add: store_ok_def)
  have keyed: "keyed_by cat_id (categories s)" using assms(2) by (simp add: ids_match_def)
  have tbl: "categories (restoreBackup now u d s) =
      fold (\<lambda>(i, item). AList.update i (category_row now u i item))
        (enumerate (currentCategoryId s) (items_of (rd_categories d)))
        (filter (\<lambda>e. fst e \<notin> cat_id ` set (getCategories u s)) (categories s))"
    by (simp add: restoreBackup_eq)
  show ?thesis
    unfolding tbl
    by (rule owned_after_restore[OF ok keyed getCategories_set]) (simp add: category_row_def)
qed

section \<open>Backup, then restore\<close>

lemma mset_map_sort_key: "mset (map g (sort_key k xs)) = mset (map g xs)"
  by simp

lemma roundtrip_transactions:
  assumes "store_ok s" and "ids_match s"
  shows "mset (map (\<lambda>t. t\<lparr>tx_id := 0\<rparr>) (getTransactions u (roundtrip now u s))) =
         mset (map (\<lambda>t. t\<lparr>tx_id := 0, tx_recurring := Some (bool_or_false (tx_recurring t)),
                            tx_note := string_or_null (tx_note t)\<rparr>)
                 (getTransactions u s))"
proof -
  let ?R = "getTransactions u s"
  let ?h = "\<lambda>item. (transaction_row now u 0 item)\<lparr>tx_id := 0\<rparr>"
  have items: "items_of (rd_transactions (backup_as_data (createBackup u s))) =
               map transaction_as_item ?R"
    by (simp add: backup_as_data_def createBackup_def items_of_def)
  have rows: "filter (\<lambda>r. tx_userId r = u) (map snd (transactions (roundtrip now u s))) =
        map (\<lambda>(i, item). transaction_row now u i item)
          (enumerate (currentTransactionId s) (map transaction_as_item ?R))"
    using transactions_after_restore[OF assms, of u now u "backup_as_data (createBackup u s)"]
    by (simp add: roundtrip_def items)
  have "mset (map (\<lambda>t. t\<lparr>tx_id := 0\<rparr>) (getTransactions u (roundtrip now u s))) =
        mset (map (\<lambda>t. t\<lparr>tx_id := 0\<rparr>)
                (map (\<lambda>(i, item). transaction_row now u i item)
                   (enumerate (currentTransactionId s) (map transaction_as_item ?R))))"
    unfolding getTransactions_def[of u "roundtrip now u s"] mset_map_sort_key rows ..
  also have "\<dots> = mset (map ?h (map transaction_as_item ?R))"
    by (subst rows_forget_key[where h = ?h]) (simp_all add: transaction_row_def)
  also have "map ?h (map transaction_as_item ?R) =
             map (\<lambda>t. t\<lparr>tx_id := 0, tx_recurring := Some (bool_or_false (tx_recurring t)),
                            tx_note := string_or_null (tx_note t)\<rparr>) ?R"
    by (auto simp: getTransactions_set transaction_row_def transaction_as_item_def date_or_def)
  finally show ?thesis .
qed


lemma roundtrip_incomes:
  assumes "store_ok s" and "ids_match s"
  shows "mset (map (\<lambda>r. r\<lparr>inc_id := 0\<rparr>) (getIncomes u (roundtrip now u s))) =
         mset (map (\<lambda>r. r\<lparr>inc_id := 0, inc_recurring := Some (bool_or_false (inc_recurring r))\<rparr>)
                 (getIncomes u s))"
proof -
  let ?R = "getIncomes u s"
  let ?h = "\<lambda>item. (income_row now u 0 item)\<lparr>inc_id := 0\<rparr>"
  have items: "items_of (rd_incomes (backup_as_data (createBackup u s))) = map income_as_item ?R"
    by (simp add: backup_as_data_def createBackup_def items_of_def)
  have rows: "filter (\<lambda>r. inc_userId r = u) (map snd (incomes (roundtrip now u s))) =
        map (\<lambda>(i, item). income_row now u i item)
          (enumerate (currentIncomeId s) (map income_as_item ?R))"
    using incomes_after_restore[OF assms, of u now u "backup_as_data (createBackup u s)"]
    by (simp add: roundtrip_def items)
  have "mset (map (\<lambda>r. r\<lparr>inc_id := 0\<rparr>) (getIncomes u (roundtrip now u s))) =
        mset (map (\<lambda>r. r\<lparr>inc_id := 0\<rparr>)
                (map (\<lambda>(i, item). income_row now u i item)
                   (enumerate (currentIncomeId s) (map income_as_item ?R))))"
    unfolding getIncomes_def[of u "roundtrip now u s"] mset_map_sort_key rows ..
  also have "\<dots> = mset (map ?h (map income_as_item ?R))"
    by (subst rows_forget_key[where h = ?h]) (simp_all add: income_row_def)
  also have "map ?h (map income_as_item ?R) =
             map (\<lambda>r. r\<lparr>inc_id := 0, inc_recurring := Some (bool_or_false (inc_recurring r))\<rparr>) ?R"
    by (auto simp: getIncomes_set income_row_def income_as_item_def date_or_def)
  finally show ?thesis .
qed

lemma roundtrip_budgets:
  assumes "store_ok s" and "ids_match s"
  shows "map (\<lambda>b. b\<lparr>bud_id := 0\<rparr>) (getBudgets u (roundtrip now u s)) =
         map (\<lambda>b. b\<lparr>bud_id := 0\<rparr>) (getBudgets u s)"
proof -
  let ?R = "getBudgets u s"
  let ?h = "\<lambda>item. (budget_row u 0 item)\<lparr>bud_id := 0\<rparr>"
  have items: "items_of (rd_budgets (backup_as_data (createBackup u s))) = map budget_as_item ?R"
    by (simp add: backup_as_data_def createBackup_def items_of_def)
  have rows: "filter (\<lambda>r. bud_userId r = u) (map snd (budgets (roundtrip now u s))) =
        map (\<lambda>(i, item). budget_row u i item)
          (enumerate (currentBudgetId s) (map budget_as_item ?R))"
    using budgets_after_restore[OF assms, of u now u "backup_as_data (createBackup u s)"]
    by (simp add: roundtrip_def items)
  have "map (\<lambda>b. b\<lparr>bud_id := 0\<rparr>) (getBudgets u (roundtrip now u s)) =
        map (\<lambda>b. b\<lparr>bud_id := 0\<rparr>)
          (map (\<lambda>(i, item). budget_row u i item)
             (enumerate (currentBudgetId s) (map budget_as_item ?R)))"
    unfolding getBudgets_def[of u "roundtrip now u s"] rows ..
  also have "\<dots> = map ?h (map budget_as_item ?R)"
    by (subst rows_forget_key[where h = ?h]) (simp_all add: budget_row_def)
  also have "\<dots> = map (\<lambda>b. b\<lparr>bud_id := 0\<rparr>) ?R"
    by (auto simp: getBudgets_set budget_row_def budget_as_item_def)
  finally show ?thesis .
qed

lemma roundtrip_goals:
  assumes "store_ok s" and "ids_match s"
  shows "map (\<lambda>g. g\<lparr>goal_id := 0\<rparr>) (getGoals u (roundtrip now u s)) =
         map (\<lambda>g. g\<lparr>goal_id := 0\<rparr>) (getGoals u s)"
proof -
  let ?R = "getGoals u s"
  let ?h = "\<lambda>item. (goal_row u 0 item)\<lparr>goal_id := 0\<rparr>"
  have items: "items_of (rd_goals (backup_as_data (createBackup u s))) = map goal_as_item ?R"
    by (simp add: backup_as_data_def createBackup_def items_of_def)
  have rows: "filter (\<lambda>r. goal_userId r = u) (map snd (goals (roundtrip now u s))) =
        map (\<lambda>(i, item). goal_row u i item)
          (enumerate (currentGoalId s) (map goal_as_item ?R))"
    using goals_after_restore[OF assms, of u now u "backup_as_data (createBackup u s)"]
    by (simp add: roundtrip_def items)
  have "map (\<lambda>g. g\<lparr>goal_id := 0\<rparr>) (getGoals u (roundtrip now u s)) =
        map (\<lambda>g. g\<lparr>goal_id := 0\<rparr>)
          (map (\<lambda>(i, item). goal_row u i item)
             (enumerate (currentGoalId s) (map goal_as_item ?R)))"
    unfolding getGoals_def[of u "roundtrip now u s"] rows ..
  also have "\<dots> = map ?h (map goal_as_item ?R)"
    by (subst rows_forget_key[where h = ?h]) (simp_all add: goal_row_def)
  also have "\<dots> = map (\<lambda>g. g\<lparr>goal_id := 0\<rparr>) ?R"
    by (auto simp: getGoals_set goal_row_def goal_as_item_def number_or_zero)
  finally show ?thesis .
qed

lemma roundtrip_categories:
  assumes "store_ok s" and "ids_match s"
  shows "map (\<lambda>c. c\<lparr>cat_id := 0, cat_createdAt := 0\<rparr>) (getCategories u (roundtrip now u s)) =
         map (\<lambda>c. c\<lparr>cat_id := 0, cat_createdAt := 0\<rparr>) (getCategories u s)"
proof -
  let ?R = "getCategories u s"
  let ?h = "\<lambda>item. (category_row now u 0 item)\<lparr>cat_id := 0, cat_createdAt := 0\<rparr>"
  have typed: "\<forall>c \<in> set ?R. cat_type c = Some (string_or (cat_type c) ''expense'')"
    using assms(1) by (auto simp: store_ok_def typed_def getCategories_set)
  have items: "items_of (rd_categories (backup_as_data (createBackup u s))) =
               map category_as_item ?R"
    by (simp add: backup_as_data_def createBackup_def items_of_def)
  have rows: "filter (\<lambda>r. cat_userId r = u) (map snd (categories (roundtrip now u s))) =
        map (\<lambda>(i, item). category_row now u i item)
          (enumerate (currentCategoryId s) (map category_as_item ?R))"
    using categories_after_restore[OF assms, of u now u "backup_as_data (createBackup u s)"]
    by (simp add: roundtrip_def items)
  have "map (\<lambda>c. c\<lparr>cat_id := 0, cat_createdAt := 0\<rparr>) (getCategories u (roundtrip now u s)) =
        map (\<lambda>c. c\<lparr>cat_id := 0, cat_createdAt := 0\<rparr>)
          (map (\<lambda>(i, item). category_row now u i item)
             (enumerate (currentCategoryId s) (map category_as_item ?R)))"
    unfolding getCategories_def[of u "roundtrip now u s"] rows ..
  also have "\<dots> = map ?h (map category_as_item ?R)"
    by (subst rows_forget_key[where h = ?h]) (simp_all add: category_row_def)
  also have "\<dots> = map (\<lambda>c. c\<lparr>cat_id := 0, cat_createdAt := 0\<rparr>) ?R"
    using typed by (auto simp: getCategories_set category_row_def category_as_item_def)
  finally show ?thesis .
qed

text \<open>
  C1, as the code has it. Take a store reached from the empty one in which every row of
  the five tables still carries its map key as \<open>id\<close>. After \<open>createBackup(userId)\<close> and
  \<open>restoreBackup(userId, b)\<close> on exactly the backup, the user holds the same multiset of
  budgets and of goals as before, ids ignored. The transactions and incomes are the
  same, ids ignored, up to the defaults of the create functions: a \<open>recurring\<close> that was
  null comes back as false and a note that was the empty string comes back as null.
  The categories are the same when ids and \<open>createdAt\<close> are ignored: \<open>createCategory\<close>
  sets \<open>createdAt\<close> to the time of the restore.
\<close>

theorem backup_restore_roundtrip:
  assumes "ids_match (run ops)"
  shows
    "mset (map (\<lambda>t. t\<lparr>tx_id := 0\<rparr>) (getTransactions u (roundtrip now u (run ops)))) =
       mset (map (\<lambda>t. t\<lparr>tx_id := 0, tx_recurring := Some (bool_or_false (tx_recurring t)),
                          tx_note := string_or_null (tx_note t)\<rparr>)
               (getTransactions u (run ops))) \<and>
     mset (map (\<lambda>r. r\<lparr>inc_id := 0\<rparr>) (getIncomes u (roundtrip now u (run ops)))) =
       mset (map (\<lambda>r. r\<lparr>inc_id := 0,
                          inc_recurring := Some (bool_or_false (inc_recurring r))\<rparr>)
               (getIncomes u (run ops))) \<and>
     mset (map (\<lambda>b. b\<lparr>bud_id := 0\<rparr>) (getBudgets u (roundtrip now u (run ops)))) =
       mset (map (\<lambda>b. b\<lparr>bud_id := 0\<rparr>) (getBudgets u (run ops))) \<and>
     mset (map (\<lambda>g. g\<lparr>goal_id := 0\<rparr>) (getGoals u (roundtrip now u (run ops)))) =
       mset (map (\<lambda>g. g\<lparr>goal_id := 0\<rparr>) (getGoals u (run ops))) \<and>
     mset (map (\<lambda>c. c\<lparr>cat_id := 0, cat_createdAt := 0\<rparr>)
             (getCategories u (roundtrip now u (run ops)))) =
       mset (map (\<lambda>c. c\<lparr>cat_id := 0, cat_createdAt := 0\<rparr>) (getCategories u (run ops)))"
proof -
  have ok: "store_ok (run ops)" by (rule store_ok_run)
  show ?thesis
    using roundtrip_transactions[OF ok assms, of u now] roundtrip_incomes[OF ok assms, of u now]
      roundtrip_budgets[OF ok assms, of u now] roundtrip_goals[OF ok assms, of u now]
      roundtrip_categories[OF ok assms, of u now]
    by (simp only: simp_thms)
qed

lemma demo_ids_match: "ids_match (run demo_ops)"
  unfolding demo_def[symmetric] demo_value
  by (simp add: ids_match_def keyed_by_def transaction_row_def income_row_def budget_row_def
      goal_row_def category_row_def)

theorem backup_restore_roundtrip_witness:
  "ids_match (run demo_ops) \<and>
   mset (map (\<lambda>t. t\<lparr>tx_id := 0\<rparr>) (getTransactions 1 (roundtrip 9 1 (run demo_ops)))) =
     mset (map (\<lambda>t. t\<lparr>tx_id := 0, tx_recurring := Some (bool_or_false (tx_recurring t)),
                        tx_note := string_or_null (tx_note t)\<rparr>)
             (getTransactions 1 (run demo_ops))) \<and>
   mset (map (\<lambda>c. c\<lparr>cat_id := 0, cat_createdAt := 0\<rparr>)
           (getCategories 1 (roundtrip 9 1 (run demo_ops)))) =
     mset (map (\<lambda>c. c\<lparr>cat_id := 0, cat_createdAt := 0\<rparr>) (getCategories 1 (run demo_ops)))"
  using demo_ids_match backup_restore_roundtrip[OF demo_ids_match, of 1 9] by blast

lemma demo_categories_before:
  "map (\<lambda>c. c\<lparr>cat_id := 0\<rparr>) (getCategories 1 demo) =
     [\<lparr>cat_id = 0, cat_userId = 1, cat_name = ''food'', cat_type = Some ''expense'',
       cat_createdAt = 3\<rparr>]"
  by code_simp

lemma demo_categories_after:
  "map (\<lambda>c. c\<lparr>cat_id := 0\<rparr>) (getCategories 1 (roundtrip 9 1 demo)) =
     [\<lparr>cat_id = 0, cat_userId = 1, cat_name = ''food'', cat_type = Some ''expense'',
       cat_createdAt = 9\<rparr>]"
  by code_simp

theorem backup_restore_roundtrip_counterexample:
  "mset (map (\<lambda>c. c\<lparr>cat_id := 0\<rparr>) (getCategories 1 (roundtrip 9 1 demo))) \<noteq>
   mset (map (\<lambda>c. c\<lparr>cat_id := 0\<rparr>) (getCategories 1 demo))"
  unfolding demo_categories_before demo_categories_after by simp

section \<open>What holds next to the failing inputs\<close>

text \<open>
  The restore properties that fail at the stores \<open>stale\<close> and \<open>clash\<close> hold in every
  store reached from the empty one in which each row still carries its map key as \<open>id\<close>:
  a collection whose key is absent from the payload ends up empty for the user, and the
  rows of every other user stay as they were. The users and the notifications are never
  touched.
\<close>

lemma restore_absent_key:
  assumes "ids_match (run ops)"
  shows "(rd_transactions d = None \<longrightarrow> getTransactions u (restoreBackup now u d (run ops)) = []) \<and>
         (rd_incomes d = None \<longrightarrow> getIncomes u (restoreBackup now u d (run ops)) = []) \<and>
         (rd_budgets d = None \<longrightarrow> getBudgets u (restoreBackup now u d (run ops)) = []) \<and>
         (rd_goals d = None \<longrightarrow> getGoals u (restoreBackup now u d (run ops)) = []) \<and>
         (rd_categories d = None \<longrightarrow> getCategories u (restoreBackup now u d (run ops)) = [])"
proof -
  have ok: "store_ok (run ops)" by (rule store_ok_run)
  show ?thesis
    unfolding getTransactions_def[of u "restoreBackup now u d (run ops)"]
      getIncomes_def[of u "restoreBackup now u d (run ops)"]
      getBudgets_def[of u "restoreBackup now u d (run ops)"]
      getGoals_def[of u "restoreBackup now u d (run ops)"]
      getCategories_def[of u "restoreBackup now u d (run ops)"]
      transactions_after_restore[OF ok assms] incomes_after_restore[OF ok assms]
      budgets_after_restore[OF ok assms] goals_after_restore[OF ok assms]
      categories_after_restore[OF ok assms]
    by (simp add: items_of_def)
qed

lemma restore_keeps_users:
  "users (restoreBackup now u d s) = users s \<and>
   notifications (restoreBackup now u d s) = notifications s \<and>
   currentUserId (restoreBackup now u d s) = currentUserId s \<and>
   currentNotificationId (restoreBackup now u d s) = currentNotificationId s"
  by (simp add: restoreBackup_eq)

lemma restore_frame:
  assumes "ids_match (run ops)" and "v \<noteq> u"
  shows "getTransactions v (restoreBackup now u d (run ops)) = getTransactions v (run ops) \<and>
         getIncomes v (restoreBackup now u d (run ops)) = getIncomes v (run ops) \<and>
         getBudgets v (restoreBackup now u d (run ops)) = getBudgets v (run ops) \<and>
         getGoals v (restoreBackup now u d (run ops)) = getGoals v (run ops) \<and>
         getCategories v (restoreBackup now u d (run ops)) = getCategories v (run ops)"
proof -
  have ok: "store_ok (run ops)" by (rule store_ok_run)
  show ?thesis
    unfolding getTransactions_def getIncomes_def getBudgets_def getGoals_def getCategories_def
      transactions_after_restore[OF ok assms(1)] incomes_after_restore[OF ok assms(1)]
      budgets_after_restore[OF ok assms(1)] goals_after_restore[OF ok assms(1)]
      categories_after_restore[OF ok assms(1)]
    using assms(2) by simp
qed

text \<open>
  Identifiers: a create call stores its row under the counter, gives it the counter as
  \<open>id\<close> and advances the counter by one; no operation lowers a counter; and in every
  store reached from the empty one the keys of each table are strictly increasing and
  below the counter (\<open>store_ok_run\<close>). What fails is the \<open>id\<close> inside a row, which a
  partial update overwrites.
\<close>

lemma create_assigns_counter:
  "tx_id (fst (createTransaction now t s)) = currentTransactionId s \<and>
   currentTransactionId (snd (createTransaction now t s)) = Suc (currentTransactionId s) \<and>
   inc_id (fst (createIncome now r s)) = currentIncomeId s \<and>
   currentIncomeId (snd (createIncome now r s)) = Suc (currentIncomeId s) \<and>
   bud_id (fst (createBudget b s)) = currentBudgetId s \<and>
   currentBudgetId (snd (createBudget b s)) = Suc (currentBudgetId s) \<and>
   goal_id (fst (createGoal g s)) = currentGoalId s \<and>
   currentGoalId (snd (createGoal g s)) = Suc (currentGoalId s) \<and>
   cat_id (fst (createCategory now c s)) = currentCategoryId s \<and>
   currentCategoryId (snd (createCategory now c s)) = Suc (currentCategoryId s)"
  by (simp add: createTransaction_def createIncome_def createBudget_def createGoal_def
      createCategory_def Let_def)

lemma counters_never_decrease:
  "currentUserId s \<le> currentUserId (perform op s) \<and>
   currentNotificationId s \<le> currentNotificationId (perform op s) \<and>
   currentTransactionId s \<le> currentTransactionId (perform op s) \<and>
   currentCategoryId s \<le> currentCategoryId (perform op s) \<and>
   currentIncomeId s \<le> currentIncomeId (perform op s) \<and>
   currentBudgetId s \<le> currentBudgetId (perform op s) \<and>
   currentGoalId s \<le> currentGoalId (perform op s)"
  by (cases op)
    (simp_all add: createUser_def createNotification_def markNotificationAsRead_def markAll_eq
      createTransaction_def updateTransaction_def deleteTransaction_def createCategory_def
      createIncome_def updateIncome_def deleteIncome_def createBudget_def updateBudget_def
      deleteBudget_def createGoal_def updateGoal_def deleteGoal_def restoreBackup_eq Let_def
      split: option.splits)

text \<open>
  The spending report: when no expense of the user is filed under a name that
  \<open>Object.prototype\<close> defines, \<open>byCategory\<close> holds the numbers of the category map and
  they add up to the total.
\<close>

lemma map_update_number:
  "map (\<lambda>e. (fst e, Number (snd e))) (AList.update k v m) =
   AList.update k (Number v) (map (\<lambda>e. (fst e, Number (snd e))) m)"
  by (induction m) auto

lemma map_of_number:
  "map_of (map (\<lambda>e. (fst e, Number (snd e))) m) k = map_option Number (map_of m k)"
  by (induction m) auto

lemma report_step_ordinary:
  assumes "tx_category t \<notin> set Object_prototype"
  shows "report_step t \<lparr>sr_total = tot, sr_byCategory = map (\<lambda>e. (fst e, Number (snd e))) m\<rparr> =
         \<lparr>sr_total = snd (accumulate t (m, tot)),
          sr_byCategory = map (\<lambda>e. (fst e, Number (snd e))) (fst (accumulate t (m, tot)))\<rparr>"
proof -
  have np: "tx_category t \<noteq> ''__proto__''" using assms by (auto simp: Object_prototype_def)
  show ?thesis
    using assms np
    by (simp add: report_step_def accumulate_eq object_set_def object_get_def or_zero_plus_def
        map_update_number map_of_number lookup0_def split: option.splits)
qed

lemma fold_report_ordinary:
  assumes "\<forall>t \<in> set ts. tx_category t \<notin> set Object_prototype"
  shows "fold report_step ts
           \<lparr>sr_total = tot, sr_byCategory = map (\<lambda>e. (fst e, Number (snd e))) m\<rparr> =
         \<lparr>sr_total = snd (fold accumulate ts (m, tot)),
          sr_byCategory = map (\<lambda>e. (fst e, Number (snd e))) (fst (fold accumulate ts (m, tot)))\<rparr>"
  using assms
proof (induction ts arbitrary: m tot)
  case Nil
  then show ?case by simp
next
  case (Cons t ts)
  then have t: "tx_category t \<notin> set Object_prototype"
    and ts: "\<forall>t \<in> set ts. tx_category t \<notin> set Object_prototype" by simp_all
  show ?case
    using Cons.IH[OF ts, of "snd (accumulate t (m, tot))" "fst (accumulate t (m, tot))"]
    by (simp add: report_step_ordinary[OF t])
qed

lemma number_values_numbers:
  "number_values (map (\<lambda>e. (fst e, Number (snd e))) m) = map snd m"
  by (induction m) (simp_all add: number_values_def)

lemma report_ordinary_categories:
  assumes "\<forall>t \<in> set (expenses u s). tx_category t \<notin> set Object_prototype"
  shows "sr_byCategory (getSpendingReport u s) =
           map (\<lambda>e. (fst e, Number (snd e))) (fst (category_acc u s)) \<and>
         sr_total (getSpendingReport u s) = sum_list (map tx_amount (expenses u s)) \<and>
         sum_list (number_values (sr_byCategory (getSpendingReport u s))) =
           sr_total (getSpendingReport u s)"
proof -
  let ?ts = "filter (\<lambda>t. tx_type t = ''expense'') (getTransactions u s)"
  have "set ?ts = set (expenses u s)" using expense_list_mset by (rule mset_eq_setD)
  then have "\<forall>t \<in> set ?ts. tx_category t \<notin> set Object_prototype" using assms by simp
  from fold_report_ordinary[OF this, of 0 "[]"]
  have r: "getSpendingReport u s =
     \<lparr>sr_total = snd (category_acc u s),
      sr_byCategory = map (\<lambda>e. (fst e, Number (snd e))) (fst (category_acc u s))\<rparr>"
    by (simp add: getSpendingReport_def category_acc_def)
  show ?thesis
    by (simp add: r number_values_numbers category_acc_total category_acc_sum)
qed
end
